theory Spec2Isabelle
  imports Complex_Main "HOL-Library.Sublist"
begin

section \<open>Text\<close>

text \<open>
  A Python \<open>str\<close> is a sequence of code points. It is modelled as a \<open>string\<close> whose
  characters are the code points U+0000 to U+00FF (Latin-1), one \<open>char\<close> each, so
  \<open>length\<close> counts what \<open>len\<close> counts. The copyright glyph is \<open>CHR 0xA9\<close>.
  Code points above U+00FF are outside the model.
\<close>

definition uppercase :: string where
  "uppercase = ''ABCDEFGHIJKLMNOPQRSTUVWXYZ'' @
     [CHR 0xC0, CHR 0xC1, CHR 0xC2, CHR 0xC3, CHR 0xC4, CHR 0xC5, CHR 0xC6, CHR 0xC7,
      CHR 0xC8, CHR 0xC9, CHR 0xCA, CHR 0xCB, CHR 0xCC, CHR 0xCD, CHR 0xCE, CHR 0xCF,
      CHR 0xD0, CHR 0xD1, CHR 0xD2, CHR 0xD3, CHR 0xD4, CHR 0xD5, CHR 0xD6,
      CHR 0xD8, CHR 0xD9, CHR 0xDA, CHR 0xDB, CHR 0xDC, CHR 0xDD, CHR 0xDE]"

definition lowercase :: string where
  "lowercase = ''abcdefghijklmnopqrstuvwxyz'' @
     [CHR 0xE0, CHR 0xE1, CHR 0xE2, CHR 0xE3, CHR 0xE4, CHR 0xE5, CHR 0xE6, CHR 0xE7,
      CHR 0xE8, CHR 0xE9, CHR 0xEA, CHR 0xEB, CHR 0xEC, CHR 0xED, CHR 0xEE, CHR 0xEF,
      CHR 0xF0, CHR 0xF1, CHR 0xF2, CHR 0xF3, CHR 0xF4, CHR 0xF5, CHR 0xF6,
      CHR 0xF8, CHR 0xF9, CHR 0xFA, CHR 0xFB, CHR 0xFC, CHR 0xFD, CHR 0xFE]"

definition lower_char :: "char \<Rightarrow> char" where
  "lower_char c = (case map_of (zip uppercase lowercase) c of None \<Rightarrow> c | Some d \<Rightarrow> d)"

definition lower :: "string \<Rightarrow> string" where
  \<comment> \<open>\<open>str.lower()\<close>\<close>
  "lower s = map lower_char s"

definition isspace :: "char \<Rightarrow> bool" where
  \<comment> \<open>the code points below U+0100 that \<open>str.strip()\<close> removes\<close>
  "isspace c \<longleftrightarrow> c \<in> set [CHR 0x09, CHR 0x0A, CHR 0x0B, CHR 0x0C, CHR 0x0D,
       CHR 0x1C, CHR 0x1D, CHR 0x1E, CHR 0x1F, CHR 0x20, CHR 0x85, CHR 0xA0]"

definition strip :: "string \<Rightarrow> string" where
  \<comment> \<open>\<open>str.strip()\<close>\<close>
  "strip s = rev (dropWhile isspace (rev (dropWhile isspace s)))"

definition startswith :: "string \<Rightarrow> string \<Rightarrow> bool" where
  \<comment> \<open>\<open>s.startswith(p)\<close>\<close>
  "startswith s p \<longleftrightarrow> prefix p s"

definition contains :: "string \<Rightarrow> string \<Rightarrow> bool" where
  \<comment> \<open>\<open>sub in s\<close>\<close>
  "contains s sub \<longleftrightarrow> sublist sub s"

fun join :: "string \<Rightarrow> string list \<Rightarrow> string" where
  \<comment> \<open>\<open>sep.join(xs)\<close>\<close>
  "join sep [] = []"
| "join sep [x] = x"
| "join sep (x # y # ys) = x @ sep @ join sep (y # ys)"


section \<open>The three patterns\<close>

text \<open>
  \<open>re.search\<close> tries the pattern at every position from the left and returns the
  first position where it matches; \<open>re.findall\<close> goes on after the end of each match.
  Each pattern is a literal followed by one repetition and a closing piece, so the
  match at one position is written out directly.
\<close>

definition theme_char :: "char \<Rightarrow> bool" where
  \<comment> \<open>\<open>[a-z0-9_\-]\<close>\<close>
  "theme_char c \<longleftrightarrow> c \<in> set ''abcdefghijklmnopqrstuvwxyz0123456789_-''"

definition plugin_char :: "char \<Rightarrow> bool" where
  \<comment> \<open>\<open>[a-zA-Z0-9_\-]\<close>\<close>
  "plugin_char c \<longleftrightarrow>
     c \<in> set ''abcdefghijklmnopqrstuvwxyzABCDEFGHIJKLMNOPQRSTUVWXYZ0123456789_-''"

definition digit :: "char \<Rightarrow> bool" where
  \<comment> \<open>\<open>\d\<close>: below U+0100 the decimal digits are \<open>0\<close> to \<open>9\<close>\<close>
  "digit c \<longleftrightarrow> c \<in> set ''0123456789''"

definition slug_at :: "(char \<Rightarrow> bool) \<Rightarrow> string \<Rightarrow> string \<Rightarrow> (string \<times> string) option" where
  \<comment> \<open>\<open>lit([cls]+)/\<close> at the start of \<open>s\<close>: the slug and the text after the match.
     The greedy repetition takes the longest run; a shorter run is followed by a character
     of the class, never by the slash, so backtracking finds nothing more.\<close>
  "slug_at cls lit s =
     (if prefix lit s then
        (let rest = drop (length lit) s;
             slug = takeWhile cls rest;
             after = dropWhile cls rest
         in if slug \<noteq> [] \<and> prefix ''/'' after then Some (slug, tl after) else None)
      else None)"

definition theme_at :: "string \<Rightarrow> (string \<times> string) option" where
  "theme_at s = slug_at theme_char ''wp-content/themes/'' s"

definition plugin_at :: "string \<Rightarrow> (string \<times> string) option" where
  "plugin_at s = slug_at plugin_char ''wp-content/plugins/'' s"

fun theme_search :: "string \<Rightarrow> string option" where
  \<comment> \<open>\<open>re.search(r'wp-content/themes/([a-z0-9_\-]+)/', s)\<close>, group 1 of the match\<close>
  "theme_search [] = None"
| "theme_search (c # cs) =
     (case theme_at (c # cs) of Some (slug, _) \<Rightarrow> Some slug | None \<Rightarrow> theme_search cs)"

fun year_at :: "string \<Rightarrow> string option" where
  \<comment> \<open>\<open>(20\d{2})\<close> at the start of the text\<close>
  "year_at (a # b # c # d # _) =
     (if a = CHR ''2'' \<and> b = CHR ''0'' \<and> digit c \<and> digit d then Some [a, b, c, d] else None)"
| "year_at _ = None"

fun lazy_year :: "string \<Rightarrow> string option" where
  \<comment> \<open>\<open>.*?(20\d{2})\<close>: the year at the nearest position; the dot stops at a newline\<close>
  "lazy_year [] = None"
| "lazy_year (c # cs) =
     (case year_at (c # cs) of
        Some y \<Rightarrow> Some y
      | None \<Rightarrow> if c = CHR 0x0A then None else lazy_year cs)"

definition copyright_at :: "string \<Rightarrow> string option" where
  \<comment> \<open>\<open>(?:copyright|\<copyright>).*?(20\d{2})\<close> at the start of the text\<close>
  "copyright_at s =
     (if prefix ''copyright'' s then lazy_year (drop 9 s)
      else if prefix [CHR 0xA9] s then lazy_year (drop 1 s)
      else None)"

fun copyright_search :: "string \<Rightarrow> string option" where
  \<comment> \<open>\<open>re.search(copyright_pattern, s)\<close>, group 1 of the match\<close>
  "copyright_search [] = None"
| "copyright_search (c # cs) =
     (case copyright_at (c # cs) of Some y \<Rightarrow> Some y | None \<Rightarrow> copyright_search cs)"

function plugin_findall :: "string \<Rightarrow> string list" where
  \<comment> \<open>\<open>re.findall(r'wp-content/plugins/([a-zA-Z0-9_\-]+)/', s)\<close>\<close>
  "plugin_findall [] = []"
| "plugin_findall (c # cs) =
     (case plugin_at (c # cs) of
        Some (slug, rest) \<Rightarrow> slug # plugin_findall rest
      | None \<Rightarrow> plugin_findall cs)"
  by pat_completeness auto
termination
proof (relation "measure length")
  show "wf (measure (length :: string \<Rightarrow> nat))" by simp
next
  fix c :: char and cs x2 slug rest
  assume "plugin_at (c # cs) = Some x2" and "(slug, rest) = x2"
  then have a: "slug_at plugin_char ''wp-content/plugins/'' (c # cs) = Some (slug, rest)"
    by (simp add: plugin_at_def)
  let ?r = "drop (length ''wp-content/plugins/'') (c # cs)"
  from a have r: "rest = tl (dropWhile plugin_char ?r)"
    by (auto simp: slug_at_def Let_def split: if_splits)
  have "length rest \<le> length (dropWhile plugin_char ?r)" using r by simp
  also have "\<dots> \<le> length ?r" by (rule length_dropWhile_le)
  also have "\<dots> < length (c # cs)" by simp
  finally show "(rest, c # cs) \<in> measure length" by simp
next
  fix c :: char and cs
  show "(cs, c # cs) \<in> measure length" by simp
qed


section \<open>The copyright year, as the rule states it\<close>

text \<open>
  A second definition of the copyright year, not taken from the code but from the rule
  that it is to follow: of the 4-digit years 2000 to 2099 that follow the word
  \<open>copyright\<close> or the copyright glyph on the same line, the first one. Every place in
  the text is tried from the left; for a place where a keyword starts, the years in the
  rest of its line are listed from the left; the first year of the whole list is the
  result, and the empty string if the list is empty. \<open>copyright_search\<close> above is
  compared with it.
\<close>

fun tails :: "'a list \<Rightarrow> 'a list list" where
  \<comment> \<open>the text from every place on, from the left\<close>
  "tails [] = [[]]"
| "tails (x # xs) = (x # xs) # tails xs"

definition is_year :: "string \<Rightarrow> bool" where
  \<comment> \<open>a 4-digit year from 2000 to 2099\<close>
  "is_year y \<longleftrightarrow> length y = 4 \<and> take 2 y = ''20'' \<and> list_all digit (drop 2 y)"

definition line_of :: "string \<Rightarrow> string" where
  \<comment> \<open>the text up to the end of the line\<close>
  "line_of t = takeWhile (\<lambda>c. c \<noteq> CHR 0x0A) t"

definition years_in :: "string \<Rightarrow> string list" where
  \<comment> \<open>the years in a text, from the left\<close>
  "years_in t = filter is_year (map (take 4) (tails t))"

definition copyright_keywords :: "string list" where
  "copyright_keywords = [''copyright'', [CHR 0xA9]]"

definition after_keyword :: "string \<Rightarrow> string list" where
  \<comment> \<open>the text after a keyword that starts the text, if one does\<close>
  "after_keyword u =
     concat (map (\<lambda>k. if prefix k u then [drop (length k) u] else []) copyright_keywords)"

definition after_keywords :: "string \<Rightarrow> string list" where
  \<comment> \<open>the text after every keyword in the text, from the left\<close>
  "after_keywords s = concat (map after_keyword (tails s))"

definition first_copyright_year :: "string \<Rightarrow> string" where
  "first_copyright_year s =
     (case concat (map (\<lambda>t. years_in (line_of t)) (after_keywords s)) of
        [] \<Rightarrow> []
      | y # _ \<Rightarrow> y)"


section \<open>The outside world\<close>

text \<open>
  The HTTP client, the HTML parser, the clock and the iteration order of a Python set are
  not part of the program. They are the fields of a \<open>world\<close>: what \<open>requests.get\<close> does
  for a URL, what \<open>BeautifulSoup\<close> makes of a text, the difference of the two clock
  readings around the request, what \<open>round(_, 2)\<close> makes of it, and the order in
  which \<open>list(set(xs))\<close> lists the members. A call that raises returns \<open>Inl\<close> of the
  exception.
\<close>

datatype exn = Exception string

fun str :: "exn \<Rightarrow> string" where
  \<comment> \<open>\<open>str(e)\<close>\<close>
  "str (Exception msg) = msg"

record response =
  status_code :: int
  text_of :: string

type_synonym tag = "string \<rightharpoonup> string"

record soup =
  title :: "string option option"
  metas :: "tag list"

text \<open>
  Of the parsed document the program reads \<open>soup.title\<close> (\<open>None\<close> without a title
  element), \<open>soup.title.string\<close> (\<open>Some None\<close> for a title without a single text node) and
  the \<open>meta\<close> elements in document order, each one the dictionary of its attributes.
\<close>

record world =
  requests_get :: "string \<Rightarrow> exn + response"
  elapsed :: rat
  round2 :: "rat \<Rightarrow> rat"
  BeautifulSoup :: "string \<Rightarrow> exn + soup"
  list_set :: "string list \<Rightarrow> string list"

definition set_order :: "world \<Rightarrow> bool" where
  \<comment> \<open>\<open>list(set(xs))\<close> lists every member of \<open>xs\<close> once, in some order\<close>
  "set_order w \<longleftrightarrow> (\<forall>xs. distinct (list_set w xs) \<and> set (list_set w xs) = set xs)"

definition find_meta :: "soup \<Rightarrow> (tag \<Rightarrow> bool) \<Rightarrow> tag option" where
  \<comment> \<open>\<open>soup.find('meta', attrs=...)\<close>: the first \<open>meta\<close> element that fits\<close>
  "find_meta sp P = find P (metas sp)"

definition is_generator :: "tag \<Rightarrow> bool" where
  \<comment> \<open>\<open>{'name': 'generator', 'content': re.compile(r'WordPress', re.I)}\<close>\<close>
  "is_generator t \<longleftrightarrow>
     t ''name'' = Some ''generator'' \<and>
     (case t ''content'' of None \<Rightarrow> False | Some c \<Rightarrow> contains (lower c) ''wordpress'')"


section \<open>The Inspector\<close>

datatype status = Code int | Text string

record site_record =
  url :: string
  is_wordpress :: bool
  plugin_count :: nat
  plugin_names :: string
  load_time_seconds :: rat
  status :: status
  site_title :: string
  meta_description :: string
  theme :: string
  copyright_year :: string
  has_woocommerce :: bool
  has_shopify :: bool
  has_elementor :: bool
  has_beaver_builder :: bool
  has_analytics :: bool
  has_pixel :: bool
  is_https :: bool
  has_viewport :: bool

definition initial_results :: "string \<Rightarrow> site_record" where
  \<comment> \<open>lines 8 to 27\<close>
  "initial_results u =
     \<lparr> url = u, is_wordpress = False, plugin_count = 0, plugin_names = [],
       load_time_seconds = 0, status = Text ''Error'', site_title = [],
       meta_description = [], theme = [], copyright_year = [],
       has_woocommerce = False, has_shopify = False, has_elementor = False,
       has_beaver_builder = False, has_analytics = False, has_pixel = False,
       is_https = False, has_viewport = False \<rparr>"

definition normalize :: "string \<Rightarrow> string" where
  \<comment> \<open>lines 30 and 31: the URL that is fetched\<close>
  "normalize u = (if \<not> startswith u ''http'' then ''https://'' @ u else u)"

definition on_exception :: "exn \<Rightarrow> site_record \<Rightarrow> site_record" where
  \<comment> \<open>lines 98 to 100\<close>
  "on_exception e results =
     results\<lparr> status := Text (''Error: '' @ str e), plugin_names := [] \<rparr>"

definition set_title :: "soup \<Rightarrow> site_record \<Rightarrow> site_record" where
  \<comment> \<open>lines 47 and 48\<close>
  "set_title sp results =
     (case title sp of
        None \<Rightarrow> results
      | Some None \<Rightarrow> results\<lparr> site_title := [] \<rparr>
      | Some (Some s) \<Rightarrow> results\<lparr> site_title := (if s \<noteq> [] then strip s else []) \<rparr>)"

definition set_meta_description :: "soup \<Rightarrow> site_record \<Rightarrow> site_record" where
  \<comment> \<open>lines 51 to 53\<close>
  "set_meta_description sp results =
     (case find_meta sp (\<lambda>t. t ''name'' = Some ''description'') of
        None \<Rightarrow> results
      | Some meta_desc \<Rightarrow>
          (case meta_desc ''content'' of
             None \<Rightarrow> results
           | Some c \<Rightarrow> if c \<noteq> [] then results\<lparr> meta_description := strip c \<rparr> else results))"

definition set_wordpress :: "string \<Rightarrow> soup \<Rightarrow> site_record \<Rightarrow> site_record" where
  \<comment> \<open>lines 56 to 59\<close>
  "set_wordpress html_content sp results =
     (if contains html_content ''wp-content'' then results\<lparr> is_wordpress := True \<rparr>
      else if find_meta sp is_generator \<noteq> None then results\<lparr> is_wordpress := True \<rparr>
      else results)"

definition set_theme :: "string \<Rightarrow> site_record \<Rightarrow> site_record" where
  \<comment> \<open>lines 63 to 66\<close>
  "set_theme html_content results =
     (case theme_search html_content of
        None \<Rightarrow> results
      | Some slug \<Rightarrow> results\<lparr> theme := slug \<rparr>)"

definition set_copyright :: "string \<Rightarrow> site_record \<Rightarrow> site_record" where
  \<comment> \<open>lines 70 to 73\<close>
  "set_copyright html_content results =
     (case copyright_search html_content of
        None \<Rightarrow> results
      | Some y \<Rightarrow> results\<lparr> copyright_year := y \<rparr>)"

definition set_plugins :: "world \<Rightarrow> string \<Rightarrow> site_record \<Rightarrow> site_record" where
  \<comment> \<open>lines 77 to 81\<close>
  "set_plugins w html_content results =
     (let plugins = plugin_findall html_content;
          unique_plugins = list_set w plugins
      in results\<lparr> plugin_count := length unique_plugins,
                  plugin_names := join '', '' unique_plugins \<rparr>)"

definition set_tech :: "string \<Rightarrow> site_record \<Rightarrow> site_record" where
  \<comment> \<open>lines 84 to 89\<close>
  "set_tech html_content results =
     results\<lparr> has_woocommerce := contains html_content ''woocommerce'',
              has_shopify := contains html_content ''shopify'',
              has_elementor := contains html_content ''elementor'',
              has_beaver_builder := contains html_content ''beaver-builder'',
              has_analytics := (contains html_content ''googletagmanager''
                                \<or> contains html_content ''google-analytics''),
              has_pixel := (contains html_content ''facebook-pixel''
                            \<or> contains html_content ''fbevents.js'') \<rparr>"

definition set_viewport :: "soup \<Rightarrow> site_record \<Rightarrow> site_record" where
  \<comment> \<open>lines 94 to 96\<close>
  "set_viewport sp results =
     (if find_meta sp (\<lambda>t. t ''name'' = Some ''viewport'') \<noteq> None
      then results\<lparr> has_viewport := True \<rparr> else results)"

definition inspect_body :: "world \<Rightarrow> string \<Rightarrow> soup \<Rightarrow> site_record \<Rightarrow> site_record" where
  \<comment> \<open>lines 43 to 96, once the document is parsed\<close>
  "inspect_body w body sp results =
     (let html_content = lower body
      in set_viewport sp (set_tech html_content (set_plugins w html_content
           (set_copyright html_content (set_theme html_content
             (set_wordpress html_content sp
               (set_meta_description sp (set_title sp results))))))))"

definition check_website :: "world \<Rightarrow> string \<Rightarrow> site_record" where
  "check_website w u =
     (let results = initial_results u;
          results = results\<lparr> is_https := startswith (normalize u) ''https'' \<rparr>
      in case requests_get w (normalize u) of
           Inl e \<Rightarrow> on_exception e results
         | Inr response \<Rightarrow>
             (let results = results\<lparr> load_time_seconds := round2 w (elapsed w),
                                     status := Code (status_code response) \<rparr>
              in if status_code response = 200 then
                   (case BeautifulSoup w (text_of response) of
                      Inl e \<Rightarrow> on_exception e results
                    | Inr sp \<Rightarrow> inspect_body w (text_of response) sp results)
                 else results))"


section \<open>The Batch Runner\<close>

text \<open>
  The run reads \<open>websites.csv\<close>, writes \<open>results.csv\<close> and prints to the operator. The
  state it works on holds the rows that \<open>csv.reader\<close> yields for the input file (\<open>None\<close>
  when the file does not exist), the rows of the output file (\<open>None\<close> while it does not
  exist), one entry for every time the output file was opened, and what was printed.
  A data row is the record that \<open>DictWriter.writerow\<close> was given. A printed line is
  kept by its kind and the values it shows; the percentage of the progress line, which
  is computed from the two numbers shown, is left out. The world may differ from one
  inspection to the next: \<open>ws i\<close> is the world at the \<open>i\<close>-th one.
\<close>

datatype row = Header "string list" | Data site_record

datatype file_op = Write "row list" | Append "row list"

datatype printed =
    Reading_from string
  | Not_found string
  | Found nat
  | Banner
  | Progress nat nat
  | Checking string
  | Title_line string
  | WP_line bool
  | Theme_line string
  | Plugins_line nat string
  | Tech_line bool bool bool bool
  | Health_line bool bool rat
  | Saving_batch nat string
  | Done nat
  | Results_saved string

record system =
  input_file :: "string list list option"
  output_file :: "row list option"
  file_ops :: "file_op list"
  stdout :: "printed list"

definition print :: "printed list \<Rightarrow> system \<Rightarrow> system" where
  "print ls sys = sys\<lparr> stdout := stdout sys @ ls \<rparr>"

definition open_w :: "row list \<Rightarrow> system \<Rightarrow> system" where
  \<comment> \<open>\<open>open(output_file, 'w')\<close> and the rows written before it is closed\<close>
  "open_w rows sys = sys\<lparr> output_file := Some rows, file_ops := file_ops sys @ [Write rows] \<rparr>"

definition open_a :: "row list \<Rightarrow> system \<Rightarrow> system" where
  \<comment> \<open>\<open>open(output_file, 'a')\<close> and the rows written before it is closed\<close>
  "open_a rows sys =
     sys\<lparr> output_file := Some ((case output_file sys of None \<Rightarrow> [] | Some old \<Rightarrow> old) @ rows),
          file_ops := file_ops sys @ [Append rows] \<rparr>"

definition input_name :: string where
  "input_name = ''websites.csv''"

definition output_name :: string where
  "output_name = ''results.csv''"

definition BATCH_SIZE :: nat where
  "BATCH_SIZE = 100"

definition fieldnames :: "string list" where
  "fieldnames =
     [''url'', ''status'', ''load_time_seconds'',
      ''site_title'', ''meta_description'', ''copyright_year'',
      ''is_wordpress'', ''theme'', ''plugin_count'', ''plugin_names'',
      ''has_woocommerce'', ''has_shopify'', ''has_elementor'', ''has_beaver_builder'',
      ''has_analytics'', ''has_pixel'',
      ''is_https'', ''has_viewport'']"

definition read_websites :: "string list list \<Rightarrow> string list" where
  \<comment> \<open>lines 115 to 117: the first cell of every row that has one\<close>
  "read_websites rows = map (\<lambda>row. strip (hd row)) (filter (\<lambda>row. row \<noteq> []) rows)"

definition show_title :: "string \<Rightarrow> string" where
  \<comment> \<open>line 158\<close>
  "show_title t = (if length t > 50 then take 50 t @ ''...'' else t)"

definition show_plugins :: "string \<Rightarrow> string" where
  \<comment> \<open>line 161\<close>
  "show_plugins names = take 60 names @ ''...''"

definition detailed_output :: "site_record \<Rightarrow> printed list" where
  \<comment> \<open>lines 158 to 163\<close>
  "detailed_output result =
     [Title_line (show_title (site_title result)),
      WP_line (is_wordpress result),
      Theme_line (theme result),
      Plugins_line (plugin_count result) (show_plugins (plugin_names result)),
      Tech_line (has_woocommerce result) (has_shopify result)
                (has_analytics result) (has_pixel result),
      Health_line (is_https result) (has_viewport result) (load_time_seconds result)]"

text \<open>
  The loop of lines 141 to 172, with the index that \<open>enumerate(websites, 1)\<close> counts.
  Lines 151 to 153 add a key that the record lacks; the Inspector's record has every
  key, so they change nothing.
\<close>

fun run_loop ::
  "(nat \<Rightarrow> world) \<Rightarrow> nat \<Rightarrow> nat \<Rightarrow> string list \<Rightarrow> site_record list \<Rightarrow> system \<Rightarrow> system" where
  "run_loop ws total_websites index [] batch_results sys = sys"
| "run_loop ws total_websites index (u # us) batch_results sys =
     (let sys = print [Banner, Progress index total_websites, Checking u, Banner] sys;
          result = check_website (ws index) u;
          batch_results = batch_results @ [result];
          sys = print (detailed_output result) sys
      in if length batch_results \<ge> BATCH_SIZE \<or> index = total_websites then
           (let sys = print [Saving_batch (length batch_results) output_name] sys;
                sys = open_a (map Data batch_results) sys
            in run_loop ws total_websites (index + 1) us [] sys)
         else run_loop ws total_websites (index + 1) us batch_results sys)"

definition main :: "(nat \<Rightarrow> world) \<Rightarrow> system \<Rightarrow> system" where
  "main ws sys =
     (let sys = print [Reading_from input_name] sys
      in case input_file sys of
           None \<Rightarrow> print [Not_found input_name] sys
         | Some rows \<Rightarrow>
             (let websites = read_websites rows;
                  total_websites = length websites;
                  sys = print [Found total_websites] sys;
                  sys = open_w [Header fieldnames] sys;
                  sys = run_loop ws total_websites 1 websites [] sys
              in print [Banner, Done total_websites, Results_saved output_name, Banner] sys))"


section \<open>The records and the batches of a run\<close>

text \<open>
  Two functions to state what a run writes. \<open>inspections ws index us\<close> lists the records
  that the Inspector returns for the URLs \<open>us\<close>, the first one inspected as number
  \<open>index\<close>. \<open>flushes total index rs batch\<close> follows lines 155, 166 and 172 on the
  records alone: it lists the batches that are written while the records \<open>rs\<close> arrive,
  starting with \<open>batch\<close> in the buffer.
\<close>

fun inspections :: "(nat \<Rightarrow> world) \<Rightarrow> nat \<Rightarrow> string list \<Rightarrow> site_record list" where
  "inspections ws index [] = []"
| "inspections ws index (u # us) = check_website (ws index) u # inspections ws (index + 1) us"

fun flushes :: "nat \<Rightarrow> nat \<Rightarrow> 'a list \<Rightarrow> 'a list \<Rightarrow> 'a list list" where
  "flushes total_websites index [] batch = []"
| "flushes total_websites index (r # rs) batch =
     (if length (batch @ [r]) \<ge> BATCH_SIZE \<or> index = total_websites
      then (batch @ [r]) # flushes total_websites (index + 1) rs []
      else flushes total_websites (index + 1) rs (batch @ [r]))"


section \<open>Sample worlds\<close>

text \<open>
  Two worlds to run the program in: one where every request times out after 10.01
  seconds, and one where every request returns a given status code and body after 1.234
  seconds, with a given outcome of the parser. In both, \<open>list(set(xs))\<close> lists the
  members in the order of their last occurrence.
\<close>

definition empty_soup :: soup where
  "empty_soup = \<lparr> title = None, metas = [] \<rparr>"

definition timeout_world :: world where
  "timeout_world =
     \<lparr> requests_get = (\<lambda>u. Inl (Exception ''timed out'')),
       elapsed = 1001 / 100,
       round2 = (\<lambda>x. x),
       BeautifulSoup = (\<lambda>t. Inr empty_soup),
       list_set = remdups \<rparr>"

definition page_world :: "int \<Rightarrow> string \<Rightarrow> exn + soup \<Rightarrow> world" where
  "page_world code body parsed =
     \<lparr> requests_get = (\<lambda>u. Inr \<lparr> status_code = code, text_of = body \<rparr>),
       elapsed = 617 / 500,
       round2 = (\<lambda>x. of_int (round (x * 100)) / 100),
       BeautifulSoup = (\<lambda>t. parsed),
       list_set = remdups \<rparr>"

definition rejecting_world :: world where
  "rejecting_world = page_world 200 ''<![if'' (Inl (Exception ''markup rejected''))"

definition two_plugins_body :: string where
  "two_plugins_body =
     ''/wp-content/plugins/akismet/a.js /wp-content/plugins/jetpack/b.js /WP-Content/Plugins/Akismet/c.css''"


text \<open>
  A page whose title is longer than the 50 characters that the operator is shown, and
  the state before a run: the input file with given rows or missing, no output file,
  nothing printed.
\<close>

definition long_title :: string where
  "long_title = ''Example Corporation - Home of the Finest Examples on the Web''"

definition titled_world :: world where
  "titled_world = page_world 200 ''<title>t</title>''
     (Inr \<lparr> title = Some (Some long_title), metas = [] \<rparr>)"

definition fresh :: "string list list option \<Rightarrow> system" where
  "fresh inp = \<lparr> input_file = inp, output_file = None, file_ops = [], stdout = [] \<rparr>"


section \<open>The Inspector, path by path\<close>

lemmas inspect_defs =
  inspect_body_def set_viewport_def set_tech_def set_plugins_def set_copyright_def
  set_theme_def set_wordpress_def set_meta_description_def set_title_def

lemma check_website_fetch_raises:
  "requests_get w (normalize u) = Inl e \<Longrightarrow>
   check_website w u =
     (initial_results u)\<lparr> is_https := startswith (normalize u) ''https'',
                          status := Text (''Error: '' @ str e) \<rparr>"
  by (simp add: check_website_def Let_def on_exception_def initial_results_def)

lemma check_website_parse_raises:
  "requests_get w (normalize u) = Inr r \<Longrightarrow> status_code r = 200 \<Longrightarrow>
   BeautifulSoup w (text_of r) = Inl e \<Longrightarrow>
   check_website w u =
     (initial_results u)\<lparr> is_https := startswith (normalize u) ''https'',
                          load_time_seconds := round2 w (elapsed w),
                          status := Text (''Error: '' @ str e) \<rparr>"
  by (simp add: check_website_def Let_def on_exception_def initial_results_def)

lemma check_website_not_200:
  "requests_get w (normalize u) = Inr r \<Longrightarrow> status_code r \<noteq> 200 \<Longrightarrow>
   check_website w u =
     (initial_results u)\<lparr> is_https := startswith (normalize u) ''https'',
                          load_time_seconds := round2 w (elapsed w),
                          status := Code (status_code r) \<rparr>"
  by (simp add: check_website_def Let_def initial_results_def)

lemma check_website_200:
  "requests_get w (normalize u) = Inr r \<Longrightarrow> status_code r = 200 \<Longrightarrow>
   BeautifulSoup w (text_of r) = Inr sp \<Longrightarrow>
   check_website w u =
     inspect_body w (text_of r) sp
       ((initial_results u)\<lparr> is_https := startswith (normalize u) ''https'',
                          load_time_seconds := round2 w (elapsed w),
                          status := Code 200 \<rparr>)"
  by (simp add: check_website_def Let_def initial_results_def)

lemma inspect_body_is_wordpress:
  "is_wordpress (inspect_body w body sp r) =
     (is_wordpress r \<or> contains (lower body) ''wp-content'' \<or> find_meta sp is_generator \<noteq> None)"
  by (simp add: inspect_defs Let_def split: option.splits)

lemma inspect_body_theme:
  "theme (inspect_body w body sp r) =
     (case theme_search (lower body) of None \<Rightarrow> theme r | Some slug \<Rightarrow> slug)"
  by (simp add: inspect_defs Let_def split: option.splits)

lemma inspect_body_copyright_year:
  "copyright_year (inspect_body w body sp r) =
     (case copyright_search (lower body) of None \<Rightarrow> copyright_year r | Some y \<Rightarrow> y)"
  by (simp add: inspect_defs Let_def split: option.splits)

lemma inspect_body_plugin_count:
  "plugin_count (inspect_body w body sp r) = length (list_set w (plugin_findall (lower body)))"
  by (simp add: inspect_defs Let_def split: option.splits)

lemma inspect_body_plugin_names:
  "plugin_names (inspect_body w body sp r) =
     join '', '' (list_set w (plugin_findall (lower body)))"
  by (simp add: inspect_defs Let_def split: option.splits)

lemma inspect_body_frame:
  "url (inspect_body w body sp r) = url r"
  "is_https (inspect_body w body sp r) = is_https r"
  "load_time_seconds (inspect_body w body sp r) = load_time_seconds r"
  "status (inspect_body w body sp r) = status r"
  by (simp_all add: inspect_defs Let_def split: option.splits)

lemma set_order_page: "set_order (page_world code body parsed)"
  by (simp add: set_order_def page_world_def)

lemma set_order_timeout: "set_order timeout_world"
  by (simp add: set_order_def timeout_world_def)

lemma set_order_nil: "set_order w \<Longrightarrow> list_set w [] = []"
  by (metis set_order_def set_empty2 list.set(1) set_empty)

lemma set_order_length: "set_order w \<Longrightarrow> length (list_set w xs) = card (set xs)"
  by (metis set_order_def distinct_card)


section \<open>The URL of the record\<close>

text \<open>
  Claim C2, at the input \<open>httpbin.org\<close>. The host name has no scheme, but it starts
  with \<open>http\<close>, which is all that line 30 looks at: the URL is fetched as it is, without
  \<open>https://\<close> in front, and \<open>is_https\<close> is false, in every world.
\<close>

theorem scheme_missed:
  "\<not> startswith (normalize ''httpbin.org'') ''https://'' \<and>
   normalize ''httpbin.org'' = ''httpbin.org'' \<and>
   \<not> is_https (check_website w ''httpbin.org'')"
proof -
  have n: "normalize ''httpbin.org'' = ''httpbin.org''"
    by (simp add: normalize_def startswith_def)
  have "is_https (check_website w u) = startswith (normalize u) ''https''" for u
    by (cases "requests_get w (normalize u)")
      (simp_all add: check_website_def Let_def on_exception_def initial_results_def
        inspect_body_frame split: sum.splits)
  then show ?thesis by (simp add: n startswith_def)
qed

text \<open>
  What line 30 does do: an input that does not start with \<open>http\<close> is fetched with
  \<open>https://\<close> in front, and the record says so.
\<close>

lemma normalize_without_http:
  "\<not> startswith u ''http'' \<Longrightarrow>
   startswith (normalize u) ''https://'' \<and> is_https (check_website w u)"
proof -
  assume a: "\<not> startswith u ''http''"
  have h: "is_https (check_website w u) = startswith (normalize u) ''https''"
    by (cases "requests_get w (normalize u)")
      (simp_all add: check_website_def Let_def on_exception_def initial_results_def
        inspect_body_frame split: sum.splits)
  from a show ?thesis by (simp add: h normalize_def startswith_def)
qed

text \<open>
  Claim C3 as stated fails: for the input \<open>example.com\<close>, which does not start with
  \<open>http\<close>, the \<open>url\<close> field is not the input with \<open>https://\<close> in front.
\<close>

theorem url_counterexample:
  "\<not> startswith ''example.com'' ''http'' \<and>
   url (check_website timeout_world ''example.com'') \<noteq> ''https://'' @ ''example.com''"
  by (simp add: check_website_fetch_raises timeout_world_def initial_results_def
      normalize_def startswith_def)

text \<open>
  Claim C3, amended: the \<open>url\<close> field of the record is the input as it was given,
  whether or not \<open>https://\<close> was put in front of it for the request. Line 9 stores
  the input, and line 31 changes the local variable only.
\<close>

theorem url_unchanged: "url (check_website w u) = u"
  by (simp add: check_website_def Let_def on_exception_def initial_results_def
      inspect_body_frame split: sum.splits)


section \<open>The load time\<close>

text \<open>
  Claim C4 as stated fails: in the world where the request is sent and times out after
  10.01 seconds, the record's \<open>load_time_seconds\<close> is 0.
\<close>

theorem load_time_counterexample:
  "requests_get timeout_world (normalize ''example.com'') = Inl (Exception ''timed out'') \<and>
   round2 timeout_world (elapsed timeout_world) = 1001 / 100 \<and>
   load_time_seconds (check_website timeout_world ''example.com'') = 0"
  by (simp add: check_website_fetch_raises timeout_world_def initial_results_def)

text \<open>
  Claim C4, amended: \<open>load_time_seconds\<close> is the elapsed time rounded to two decimals
  whenever \<open>requests.get\<close> returns a response, whatever its status code and whatever
  happens to the body afterwards; when \<open>requests.get\<close> raises, lines 37 and 38 are
  skipped and \<open>load_time_seconds\<close> stays 0.
\<close>

theorem load_time:
  "load_time_seconds (check_website w u) =
     (case requests_get w (normalize u) of Inl e \<Rightarrow> 0 | Inr r \<Rightarrow> round2 w (elapsed w))"
proof (cases "requests_get w (normalize u)")
  case (Inl e)
  then show ?thesis by (simp add: check_website_fetch_raises initial_results_def)
next
  case (Inr r)
  show ?thesis
  proof (cases "status_code r = 200")
    case False
    then show ?thesis using Inr by (simp add: check_website_not_200)
  next
    case True
    show ?thesis
    proof (cases "BeautifulSoup w (text_of r)")
      case (Inl e)
      then show ?thesis using Inr True by (simp add: check_website_parse_raises)
    next
      case (Inr sp)
      then show ?thesis
        using \<open>requests_get w (normalize u) = Inr r\<close> True
        by (simp add: check_website_200 inspect_body_frame)
    qed
  qed
qed


section \<open>The record of a failed inspection\<close>

text \<open>
  Claim C1 as stated fails: when the request for \<open>example.com\<close> times out, the
  record's \<open>is_https\<close> is not at its default. Line 33 sets it before the request is sent,
  and the handler of lines 98 to 100 resets nothing but \<open>status\<close> and \<open>plugin_names\<close>.
\<close>

theorem error_record_counterexample:
  "requests_get timeout_world (normalize ''example.com'') = Inl (Exception ''timed out'') \<and>
   is_https (check_website timeout_world ''example.com'') \<noteq> is_https (initial_results ''example.com'')"
  by (simp add: check_website_fetch_raises timeout_world_def initial_results_def
      normalize_def startswith_def)

text \<open>
  Claim C1, amended: when \<open>requests.get\<close> or the parser raises, \<open>status\<close> is
  \<open>Error: \<close> followed by the message of the exception, \<open>plugin_names\<close> is the empty
  string, \<open>url\<close> is the input as given, and every other field holds its default except
  \<open>is_https\<close>, which says whether the URL that was fetched starts with \<open>https\<close>, and,
  when it is the parser that raises, \<open>load_time_seconds\<close>, which holds the rounded
  elapsed time of the request.
\<close>

theorem error_record:
  "(requests_get w (normalize u) = Inl e \<longrightarrow>
      check_website w u =
        \<lparr> url = u, is_wordpress = False, plugin_count = 0, plugin_names = [],
          load_time_seconds = 0, status = Text (''Error: '' @ str e), site_title = [],
          meta_description = [], theme = [], copyright_year = [],
          has_woocommerce = False, has_shopify = False, has_elementor = False,
          has_beaver_builder = False, has_analytics = False, has_pixel = False,
          is_https = startswith (normalize u) ''https'', has_viewport = False \<rparr>) \<and>
   (requests_get w (normalize u) = Inr r \<and> status_code r = 200 \<and>
    BeautifulSoup w (text_of r) = Inl e \<longrightarrow>
      check_website w u =
        \<lparr> url = u, is_wordpress = False, plugin_count = 0, plugin_names = [],
          load_time_seconds = round2 w (elapsed w), status = Text (''Error: '' @ str e),
          site_title = [], meta_description = [], theme = [], copyright_year = [],
          has_woocommerce = False, has_shopify = False, has_elementor = False,
          has_beaver_builder = False, has_analytics = False, has_pixel = False,
          is_https = startswith (normalize u) ''https'', has_viewport = False \<rparr>)"
  by (simp add: check_website_fetch_raises check_website_parse_raises initial_results_def)

text \<open>
  Both paths of C1 at a concrete input: a request that times out, and a response with
  status 200 whose body the parser rejects.
\<close>

theorem error_record_witness:
  "check_website timeout_world ''example.com'' =
        \<lparr> url = ''example.com'', is_wordpress = False, plugin_count = 0, plugin_names = [],
          load_time_seconds = 0, status = Text ''Error: timed out'', site_title = [],
          meta_description = [], theme = [], copyright_year = [],
          has_woocommerce = False, has_shopify = False, has_elementor = False,
          has_beaver_builder = False, has_analytics = False, has_pixel = False,
          is_https = True, has_viewport = False \<rparr> \<and>
   check_website rejecting_world ''http://example.com'' =
        \<lparr> url = ''http://example.com'', is_wordpress = False, plugin_count = 0,
          plugin_names = [], load_time_seconds = 123 / 100,
          status = Text ''Error: markup rejected'',
          site_title = [], meta_description = [], theme = [], copyright_year = [],
          has_woocommerce = False, has_shopify = False, has_elementor = False,
          has_beaver_builder = False, has_analytics = False, has_pixel = False,
          is_https = False, has_viewport = False \<rparr>"
proof -
  have n1: "normalize ''example.com'' = ''https://example.com''"
    and n2: "normalize ''http://example.com'' = ''http://example.com''"
    by (simp_all add: normalize_def startswith_def)
  have h1: "requests_get timeout_world (normalize ''example.com'') = Inl (Exception ''timed out'')"
    by (simp add: timeout_world_def)
  have h2: "requests_get rejecting_world (normalize ''http://example.com'') =
              Inr \<lparr> status_code = 200, text_of = ''<![if'' \<rparr> \<and>
            status_code \<lparr> status_code = 200, text_of = ''<![if'' \<rparr> = 200 \<and>
            BeautifulSoup rejecting_world (text_of \<lparr> status_code = 200, text_of = ''<![if'' \<rparr>) =
              Inl (Exception ''markup rejected'')"
    by (simp add: rejecting_world_def page_world_def)
  have r: "round2 rejecting_world (elapsed rejecting_world) = 123 / 100"
    by (simp add: rejecting_world_def page_world_def round_def floor_unique)
  from error_record [of timeout_world "''example.com''" "Exception ''timed out''"] h1
  have a: "check_website timeout_world ''example.com'' =
        \<lparr> url = ''example.com'', is_wordpress = False, plugin_count = 0, plugin_names = [],
          load_time_seconds = 0, status = Text (''Error: '' @ str (Exception ''timed out'')), site_title = [],
          meta_description = [], theme = [], copyright_year = [],
          has_woocommerce = False, has_shopify = False, has_elementor = False,
          has_beaver_builder = False, has_analytics = False, has_pixel = False,
          is_https = startswith (normalize ''example.com'') ''https'', has_viewport = False \<rparr>"
    by blast
  from error_record [of rejecting_world "''http://example.com''" "Exception ''markup rejected''"
      "\<lparr> status_code = 200, text_of = ''<![if'' \<rparr>"] h2
  have b: "check_website rejecting_world ''http://example.com'' =
        \<lparr> url = ''http://example.com'', is_wordpress = False, plugin_count = 0, plugin_names = [],
          load_time_seconds = round2 rejecting_world (elapsed rejecting_world),
          status = Text (''Error: '' @ str (Exception ''markup rejected'')),
          site_title = [], meta_description = [], theme = [], copyright_year = [],
          has_woocommerce = False, has_shopify = False, has_elementor = False,
          has_beaver_builder = False, has_analytics = False, has_pixel = False,
          is_https = startswith (normalize ''http://example.com'') ''https'', has_viewport = False \<rparr>"
    by blast
  show ?thesis
    by (simp add: a b r n1 n2 startswith_def)
qed


section \<open>Plugins, theme and WordPress\<close>

lemma slug_at_sublist: "slug_at cls lit s = Some x \<Longrightarrow> sublist lit s"
  by (auto simp: slug_at_def split: if_splits dest: prefix_imp_sublist)

lemma sublist_lit: "sublist (xs @ ys) s \<Longrightarrow> sublist xs s"
  by (metis sublist_append_rightI sublist_order.order_trans)

lemma theme_at_wp: "theme_at s = Some x \<Longrightarrow> sublist ''wp-content'' s"
proof -
  assume "theme_at s = Some x"
  then have "sublist (''wp-content'' @ ''/themes/'') s"
    unfolding theme_at_def by (auto dest: slug_at_sublist)
  then show ?thesis by (rule sublist_lit)
qed

lemma plugin_at_wp: "plugin_at s = Some x \<Longrightarrow> sublist ''wp-content'' s"
proof -
  assume "plugin_at s = Some x"
  then have "sublist (''wp-content'' @ ''/plugins/'') s"
    unfolding plugin_at_def by (auto dest: slug_at_sublist)
  then show ?thesis by (rule sublist_lit)
qed

lemma theme_search_wp: "theme_search s = Some slug \<Longrightarrow> sublist ''wp-content'' s"
proof (induction s)
  case Nil
  then show ?case by simp
next
  case (Cons c cs)
  show ?case
  proof (cases "theme_at (c # cs)")
    case None
    with Cons have "sublist ''wp-content'' cs" by simp
    then show ?thesis by (simp add: sublist_Cons_right)
  next
    case (Some x)
    then show ?thesis by (rule theme_at_wp)
  qed
qed

lemma plugin_findall_wp: "plugin_findall s \<noteq> [] \<Longrightarrow> sublist ''wp-content'' s"
proof (induction s rule: plugin_findall.induct)
  case 1
  then show ?case by simp
next
  case (2 c cs)
  show ?case
  proof (cases "plugin_at (c # cs)")
    case None
    with 2 have "sublist ''wp-content'' cs" by simp
    then show ?thesis by (simp add: sublist_Cons_right)
  next
    case (Some x)
    then show ?thesis by (rule plugin_at_wp)
  qed
qed

lemma findall1: "plugin_findall ''wp-content/plugins/akismet/'' = [''akismet'']"
  by (simp add: plugin_at_def slug_at_def plugin_char_def)

lemma findall2:
  "plugin_findall ''wp-content/plugins/A/ wp-content/plugins/a/'' = [''A'', ''a'']"
  by (simp add: plugin_at_def slug_at_def plugin_char_def)

lemma findall3:
  "plugin_findall (lower ''wp-content/plugins/A/ wp-content/plugins/a/'') = [''a'', ''a'']"
  by (simp add: plugin_at_def slug_at_def plugin_char_def lower_def lower_char_def
      uppercase_def lowercase_def)

lemma findall_two:
  "plugin_findall (lower two_plugins_body) = [''akismet'', ''jetpack'', ''akismet'']"
  by (simp add: two_plugins_body_def plugin_at_def slug_at_def plugin_char_def lower_def
      lower_char_def uppercase_def lowercase_def)

text \<open>
  Claim C6 as stated fails. A response with status 404 whose body holds one plugin path
  gives a record with \<open>plugin_count\<close> 0: the body is inspected for status 200 only. And a
  response with status 200 whose body holds the slugs \<open>A\<close> and \<open>a\<close> gives
  \<open>plugin_count\<close> 1, where the pattern matches two distinct slugs in the body: the
  pattern is run on the lower-cased body.
\<close>

theorem plugin_count_counterexample:
  "status (check_website (page_world 404 ''wp-content/plugins/akismet/'' (Inr empty_soup)) ''example.com'')
     = Code 404 \<and>
   card (set (plugin_findall ''wp-content/plugins/akismet/'')) = 1 \<and>
   plugin_count (check_website (page_world 404 ''wp-content/plugins/akismet/'' (Inr empty_soup)) ''example.com'') = 0 \<and>
   status (check_website (page_world 200 ''wp-content/plugins/A/ wp-content/plugins/a/'' (Inr empty_soup)) ''example.com'')
     = Code 200 \<and>
   card (set (plugin_findall ''wp-content/plugins/A/ wp-content/plugins/a/'')) = 2 \<and>
   plugin_count (check_website (page_world 200 ''wp-content/plugins/A/ wp-content/plugins/a/'' (Inr empty_soup)) ''example.com'') = 1"
proof -
  let ?w4 = "page_world 404 ''wp-content/plugins/akismet/'' (Inr empty_soup)"
  let ?w2 = "page_world 200 ''wp-content/plugins/A/ wp-content/plugins/a/'' (Inr empty_soup)"
  have a: "check_website ?w4 ''example.com'' =
      (initial_results ''example.com'')\<lparr> is_https := startswith (normalize ''example.com'') ''https'',
                          load_time_seconds := round2 ?w4 (elapsed ?w4),
                          status := Code 404 \<rparr>"
    by (simp add: check_website_not_200 [where r = "\<lparr> status_code = 404, text_of = ''wp-content/plugins/akismet/'' \<rparr>"] page_world_def)
  have b: "check_website ?w2 ''example.com'' =
     inspect_body ?w2 ''wp-content/plugins/A/ wp-content/plugins/a/'' empty_soup
       ((initial_results ''example.com'')\<lparr> is_https := startswith (normalize ''example.com'') ''https'',
                          load_time_seconds := round2 ?w2 (elapsed ?w2),
                          status := Code 200 \<rparr>)"
    by (simp add: check_website_200 [where r = "\<lparr> status_code = 200, text_of = ''wp-content/plugins/A/ wp-content/plugins/a/'' \<rparr>"] page_world_def)
  have c: "list_set ?w2 = remdups" by (simp add: page_world_def)
  show ?thesis
    by (simp add: a b c inspect_body_plugin_count inspect_body_frame findall1 findall2 findall3
        initial_results_def del: plugin_findall.simps)
qed

text \<open>
  Claim C6, amended: for every response with status 200 whose body is parsed without an
  exception, \<open>plugin_count\<close> is the number of distinct slugs that the plugin path pattern
  matches in the lower-cased body, and \<open>plugin_names\<close> joins the members of that same
  set, each one once, in some order; given that \<open>list(set(xs))\<close> lists every member of
  \<open>xs\<close> once.
\<close>

theorem plugin_count_dedup:
  assumes "set_order w"
    and "requests_get w (normalize u) = Inr r"
    and "status_code r = 200"
    and "BeautifulSoup w (text_of r) = Inr sp"
  shows "plugin_count (check_website w u) = card (set (plugin_findall (lower (text_of r)))) \<and>
         (\<exists>ps. distinct ps \<and> set ps = set (plugin_findall (lower (text_of r))) \<and>
               plugin_names (check_website w u) = join '', '' ps)"
proof -
  let ?ps = "list_set w (plugin_findall (lower (text_of r)))"
  have c: "plugin_count (check_website w u) = length ?ps"
    by (simp add: check_website_200 [OF assms(2,3,4)] inspect_body_plugin_count)
  have n: "plugin_names (check_website w u) = join '', '' ?ps"
    by (simp add: check_website_200 [OF assms(2,3,4)] inspect_body_plugin_names)
  have d: "distinct ?ps \<and> set ?ps = set (plugin_findall (lower (text_of r)))"
    using assms(1) by (simp add: set_order_def)
  from c have "plugin_count (check_website w u) = card (set (plugin_findall (lower (text_of r))))"
    by (simp add: set_order_length [OF assms(1)])
  with n d show ?thesis by blast
qed

text \<open>
  C6 at a concrete input: a body that names \<open>akismet\<close> twice, once in capitals, and
  \<open>jetpack\<close> once.
\<close>

theorem plugin_count_dedup_witness:
  "plugin_count (check_website (page_world 200 two_plugins_body (Inr empty_soup)) ''example.com'') = 2 \<and>
   plugin_names (check_website (page_world 200 two_plugins_body (Inr empty_soup)) ''example.com'')
     = ''jetpack, akismet''"
proof -
  let ?w = "page_world 200 two_plugins_body (Inr empty_soup)"
  let ?r = "\<lparr> status_code = 200, text_of = two_plugins_body \<rparr>"
  have h1: "set_order ?w" by (rule set_order_page)
  have h2: "requests_get ?w (normalize ''example.com'') = Inr ?r" by (simp add: page_world_def)
  have h3: "status_code ?r = 200" by simp
  have h4: "BeautifulSoup ?w (text_of ?r) = Inr empty_soup" by (simp add: page_world_def)
  have t: "text_of ?r = two_plugins_body" by simp
  from plugin_count_dedup [OF h1 h2 h3 h4]
  have c: "plugin_count (check_website ?w ''example.com'') =
             card (set (plugin_findall (lower two_plugins_body)))"
    by (simp only: t)
  have "card (set (plugin_findall (lower two_plugins_body))) = 2"
    unfolding findall_two List.card_set by simp
  with c have 1: "plugin_count (check_website ?w ''example.com'') = 2" by simp
  have "plugin_names (check_website ?w ''example.com'') =
          join '', '' (list_set ?w (plugin_findall (lower two_plugins_body)))"
    by (simp only: check_website_200 [OF h2 h3 h4] inspect_body_plugin_names t)
  also have "list_set ?w = remdups" by (simp add: page_world_def)
  finally have 2: "plugin_names (check_website ?w ''example.com'') = ''jetpack, akismet''"
    by (simp add: findall_two)
  from 1 2 show ?thesis by simp
qed

text \<open>
  Claim C8 as stated fails: the body \<open>/WP-Content/themes/astra/style.css\<close> does not
  contain \<open>wp-content\<close> and the document has no generator tag, yet the record has
  \<open>is_wordpress\<close> true and the theme \<open>astra\<close>. Lines 56 and 64 search the lower-cased
  body.
\<close>

theorem no_wordpress_counterexample:
  "\<not> contains ''/WP-Content/themes/astra/style.css'' ''wp-content'' \<and>
   find_meta empty_soup is_generator = None \<and>
   is_wordpress (check_website
      (page_world 200 ''/WP-Content/themes/astra/style.css'' (Inr empty_soup)) ''example.com'') \<and>
   theme (check_website
      (page_world 200 ''/WP-Content/themes/astra/style.css'' (Inr empty_soup)) ''example.com'')
     = ''astra''"
proof -
  let ?b = "''/WP-Content/themes/astra/style.css''"
  let ?w = "page_world 200 ?b (Inr empty_soup)"
  have l: "lower ?b = ''/wp-content/themes/astra/style.css''"
    by (simp add: lower_def lower_char_def uppercase_def lowercase_def)
  have c: "check_website ?w ''example.com'' =
     inspect_body ?w ?b empty_soup
       ((initial_results ''example.com'')\<lparr> is_https := startswith (normalize ''example.com'') ''https'',
                          load_time_seconds := round2 ?w (elapsed ?w),
                          status := Code 200 \<rparr>)"
    by (simp add: check_website_200 [where r = "\<lparr> status_code = 200, text_of = ?b \<rparr>"] page_world_def)
  have 1: "\<not> contains ?b ''wp-content''" by (simp add: contains_def sublist_Cons_right)
  have 2: "find_meta empty_soup is_generator = None" by (simp add: find_meta_def empty_soup_def)
  have 3: "contains (lower ?b) ''wp-content''" by (simp add: l contains_def sublist_Cons_right)
  have 4: "theme_search (lower ?b) = Some ''astra''"
    by (simp add: l theme_at_def slug_at_def theme_char_def)
  show ?thesis
    by (simp only: c inspect_body_is_wordpress inspect_body_theme 1 2 3 4 option.case simp_thms)
qed

text \<open>
  Claim C8, amended: for every response with status 200 whose lower-cased body does not
  contain \<open>wp-content\<close> and whose parsed document has no \<open>meta\<close> element named
  \<open>generator\<close> with a content that matches \<open>WordPress\<close> in any case, the record has
  \<open>is_wordpress\<close> false, an empty \<open>theme\<close>, \<open>plugin_count\<close> 0 and empty
  \<open>plugin_names\<close>; given that \<open>list(set(xs))\<close> lists every member of \<open>xs\<close> once.
\<close>

theorem no_wordpress:
  assumes "set_order w"
    and "requests_get w (normalize u) = Inr r"
    and "status_code r = 200"
    and "\<not> contains (lower (text_of r)) ''wp-content''"
    and "\<forall>sp. BeautifulSoup w (text_of r) = Inr sp \<longrightarrow> find_meta sp is_generator = None"
  shows "\<not> is_wordpress (check_website w u) \<and> theme (check_website w u) = [] \<and>
         plugin_count (check_website w u) = 0 \<and> plugin_names (check_website w u) = []"
proof (cases "BeautifulSoup w (text_of r)")
  case (Inl e)
  show ?thesis
    by (simp add: check_website_parse_raises [OF assms(2,3) Inl] initial_results_def)
next
  case (Inr sp)
  let ?b = "lower (text_of r)"
  from assms(4) have nowp: "\<not> sublist ''wp-content'' ?b" by (simp add: contains_def)
  have t: "theme_search ?b = None"
    using nowp theme_search_wp by (cases "theme_search ?b") auto
  have p: "plugin_findall ?b = []"
    using nowp plugin_findall_wp by blast
  have g: "find_meta sp is_generator = None" using assms(5) Inr by simp
  show ?thesis
    by (simp add: check_website_200 [OF assms(2,3) Inr] inspect_body_is_wordpress
        inspect_body_theme inspect_body_plugin_count inspect_body_plugin_names
        t p g assms(4) set_order_nil [OF assms(1)] initial_results_def)
qed

text \<open>C8 at a concrete input: a page that says hello.\<close>

theorem no_wordpress_witness:
  "\<not> is_wordpress (check_website (page_world 200 ''<html>Hello</html>'' (Inr empty_soup)) ''example.com'') \<and>
   theme (check_website (page_world 200 ''<html>Hello</html>'' (Inr empty_soup)) ''example.com'') = [] \<and>
   plugin_count (check_website (page_world 200 ''<html>Hello</html>'' (Inr empty_soup)) ''example.com'') = 0 \<and>
   plugin_names (check_website (page_world 200 ''<html>Hello</html>'' (Inr empty_soup)) ''example.com'') = []"
proof -
  let ?b = "''<html>Hello</html>''"
  let ?w = "page_world 200 ?b (Inr empty_soup)"
  let ?r = "\<lparr> status_code = 200, text_of = ?b \<rparr>"
  have h1: "set_order ?w" by (rule set_order_page)
  have h2: "requests_get ?w (normalize ''example.com'') = Inr ?r" by (simp add: page_world_def)
  have h3: "status_code ?r = 200" by simp
  have h4: "\<not> contains (lower (text_of ?r)) ''wp-content''"
    by (simp add: contains_def lower_def lower_char_def uppercase_def lowercase_def sublist_Cons_right)
  have h5: "\<forall>sp. BeautifulSoup ?w (text_of ?r) = Inr sp \<longrightarrow> find_meta sp is_generator = None"
    by (simp add: page_world_def find_meta_def empty_soup_def)
  show ?thesis by (rule no_wordpress [OF h1 h2 h3 h4 h5])
qed


section \<open>The copyright year\<close>

text \<open>The pattern of the code finds what the rule states, step by step.\<close>

lemma year_at_first: "c \<noteq> CHR ''2'' \<Longrightarrow> year_at (c # t) = None"
  by (cases "c # t" rule: year_at.cases) auto

lemma year_at_spec:
  "year_at u = (if is_year (take 4 (line_of u)) then Some (take 4 (line_of u)) else None)"
proof (cases u rule: year_at.cases)
  case (1 a b c d rest)
  then show ?thesis
    by (auto simp: is_year_def line_of_def digit_def)
qed (auto simp: is_year_def line_of_def)

lemma years_in_Nil: "years_in [] = []"
  by (simp add: years_in_def is_year_def)

lemma years_in_Cons:
  "years_in (c # l) = (if is_year (take 4 (c # l)) then [take 4 (c # l)] else []) @ years_in l"
  by (simp add: years_in_def)

lemma lazy_year_spec:
  "lazy_year t = (case years_in (line_of t) of [] \<Rightarrow> None | y # _ \<Rightarrow> Some y)"
proof (induction t)
  case Nil
  then show ?case by (simp add: line_of_def years_in_Nil)
next
  case (Cons c cs)
  show ?case
  proof (cases "c = CHR 0x0A")
    case True
    then have l: "line_of (c # cs) = []" by (simp add: line_of_def)
    have "year_at (c # cs) = None" using True by (simp add: year_at_first)
    with True l show ?thesis by (simp add: years_in_Nil)
  next
    case False
    then have l: "line_of (c # cs) = c # line_of cs" by (simp add: line_of_def)
    have y: "year_at (c # cs) =
        (if is_year (take 4 (c # line_of cs)) then Some (take 4 (c # line_of cs)) else None)"
      using year_at_spec [of "c # cs"] by (simp only: l)
    show ?thesis
      by (simp only: lazy_year.simps y l years_in_Cons Cons.IH) (simp add: False)
  qed
qed

lemma year_nonempty: "y \<in> set (years_in t) \<Longrightarrow> y \<noteq> []"
  by (auto simp: years_in_def is_year_def)

lemma after_keyword_cases:
  "after_keyword u =
     (if prefix ''copyright'' u then [drop 9 u]
      else if prefix [CHR 0xA9] u then [drop 1 u] else [])"
proof -
  have x: "\<not> (prefix ''copyright'' u \<and> prefix [CHR 0xA9] u)"
    by (cases u) auto
  have l: "length ''copyright'' = 9" by simp
  have "after_keyword u =
          (if prefix ''copyright'' u then [drop (length ''copyright'') u] else []) @
          (if prefix [CHR 0xA9] u then [drop (length [CHR 0xA9]) u] else [])"
    by (simp add: after_keyword_def copyright_keywords_def del: list.size length_Cons)
  then show ?thesis using x by (simp only: l) auto
qed

lemma copyright_at_spec:
  "copyright_at u =
     (case concat (map (\<lambda>t. years_in (line_of t)) (after_keyword u)) of
        [] \<Rightarrow> None
      | y # _ \<Rightarrow> Some y)"
  by (simp add: copyright_at_def after_keyword_cases lazy_year_spec)

lemma after_keywords_Nil: "after_keywords [] = []"
  by (simp add: after_keywords_def after_keyword_cases)

lemma after_keywords_Cons: "after_keywords (c # cs) = after_keyword (c # cs) @ after_keywords cs"
  by (simp add: after_keywords_def)

lemma copyright_search_list:
  "copyright_search s =
     (case concat (map (\<lambda>t. years_in (line_of t)) (after_keywords s)) of
        [] \<Rightarrow> None
      | y # _ \<Rightarrow> Some y)"
proof (induction s)
  case Nil
  then show ?case by (simp add: after_keywords_Nil)
next
  case (Cons c cs)
  let ?here = "concat (map (\<lambda>t. years_in (line_of t)) (after_keyword (c # cs)))"
  let ?later = "concat (map (\<lambda>t. years_in (line_of t)) (after_keywords cs))"
  have all: "concat (map (\<lambda>t. years_in (line_of t)) (after_keywords (c # cs))) = ?here @ ?later"
    by (simp add: after_keywords_Cons)
  show ?case
  proof (cases ?here)
    case Nil
    then have "copyright_at (c # cs) = None" by (simp only: copyright_at_spec list.case)
    then have "copyright_search (c # cs) = copyright_search cs" by simp
    also have "\<dots> = (case ?later of [] \<Rightarrow> None | y # _ \<Rightarrow> Some y)" by (rule Cons.IH)
    finally show ?thesis by (simp only: all Nil append_Nil)
  next
    case (Cons y ys)
    then have "copyright_at (c # cs) = Some y" by (simp only: copyright_at_spec list.case)
    then have "copyright_search (c # cs) = Some y" by simp
    then show ?thesis by (simp only: all Cons append_Cons list.case)
  qed
qed

lemma first_copyright_year_nonempty:
  "copyright_search s = Some y \<Longrightarrow> y \<noteq> []"
proof -
  assume a: "copyright_search s = Some y"
  let ?all = "concat (map (\<lambda>t. years_in (line_of t)) (after_keywords s))"
  from a have "(case ?all of [] \<Rightarrow> None | y # _ \<Rightarrow> Some y) = Some y"
    by (simp only: copyright_search_list)
  then obtain ys where "?all = y # ys"
    by (cases ?all) (simp_all only: list.case option.inject option.distinct)
  then have "y \<in> set ?all" by simp
  then obtain t where "y \<in> set (years_in (line_of t))" by auto
  then show ?thesis by (rule year_nonempty)
qed

lemma copyright_search_spec:
  "first_copyright_year s = (case copyright_search s of None \<Rightarrow> [] | Some y \<Rightarrow> y)"
  by (cases "concat (map (\<lambda>t. years_in (line_of t)) (after_keywords s))")
    (simp_all only: first_copyright_year_def copyright_search_list list.case option.case)

lemma copyright_search_None_iff:
  "copyright_search s = None \<longleftrightarrow> first_copyright_year s = []"
  by (cases "copyright_search s")
    (auto simp: copyright_search_spec dest: first_copyright_year_nonempty)

text \<open>
  The search in a text that goes on with a character that is neither a digit nor a
  letter of \<open>opyright\<close>: no keyword and no year lies across the joint, so the first
  part decides if it finds a year, and the second part if not.
\<close>

lemma lazy_year_none:
  "\<forall>t. suffix t s \<longrightarrow> year_at t = None \<Longrightarrow> lazy_year s = None"
proof (induction s)
  case Nil
  then show ?case by simp
next
  case (Cons c cs)
  have "year_at (c # cs) = None" using Cons.prems by simp
  moreover have "lazy_year cs = None"
    using Cons.prems by (intro Cons.IH) (auto simp: suffix_Cons)
  ultimately show ?case by simp
qed

lemma copyright_search_none:
  "\<forall>t. suffix t s \<longrightarrow> year_at t = None \<Longrightarrow> copyright_search s = None"
proof (induction s)
  case Nil
  then show ?case by simp
next
  case (Cons c cs)
  have d: "lazy_year (drop n (c # cs)) = None" for n
  proof (rule lazy_year_none, intro allI impI)
    fix t assume "suffix t (drop n (c # cs))"
    then have "suffix t (c # cs)" by (meson suffix_drop suffix_order.order_trans)
    then show "year_at t = None" using Cons.prems by simp
  qed
  have "copyright_at (c # cs) = None"
    by (simp only: copyright_at_def d if_cancel)
  moreover have "copyright_search cs = None"
    using Cons.prems by (intro Cons.IH) (auto simp: suffix_Cons)
  ultimately show ?case by simp
qed

lemma year_at_append:
  assumes "a \<noteq> []" and "\<not> digit c0"
  shows "year_at (a @ c0 # q) = year_at a"
proof -
  have z: "c0 \<noteq> CHR ''0''" using assms(2) by (auto simp: digit_def)
  consider x where "a = [x]" | x y where "a = [x, y]" | x y z where "a = [x, y, z]"
    | x y z w rest where "a = x # y # z # w # rest"
    using assms(1) by (cases a rule: year_at.cases) auto
  then show ?thesis
  proof cases
    case 1
    have "year_at (x # c0 # q) = None"
      using z by (cases "x # c0 # q" rule: year_at.cases) auto
    with 1 show ?thesis by simp
  next
    case 2
    have "year_at (x # y # c0 # q) = None"
      using assms(2) by (cases "x # y # c0 # q" rule: year_at.cases) auto
    with 2 show ?thesis by simp
  next
    case 3
    then show ?thesis using assms(2) by simp
  next
    case 4
    then show ?thesis by simp
  qed
qed

lemma lazy_year_append:
  assumes "\<not> digit c0"
  shows "lazy_year (t @ c0 # q) =
           (case lazy_year t of
              Some y \<Rightarrow> Some y
            | None \<Rightarrow> if CHR 0x0A \<in> set t then None else lazy_year (c0 # q))"
proof (induction t)
  case Nil
  then show ?case by simp
next
  case (Cons c cs)
  have y: "year_at (c # cs @ c0 # q) = year_at (c # cs)"
    using year_at_append [of "c # cs" c0 q] assms by simp
  show ?case
  proof (cases "year_at (c # cs)")
    case (Some a)
    then show ?thesis by (simp add: y)
  next
    case None
    then show ?thesis using Cons.IH by (simp add: y)
  qed
qed

lemma lazy_year_no_years:
  "lazy_year t = None \<Longrightarrow> CHR 0x0A \<notin> set t \<Longrightarrow> suffix u t \<Longrightarrow> year_at u = None"
proof (induction t)
  case Nil
  then show ?case by simp
next
  case (Cons c cs)
  from Cons.prems(1) have y: "year_at (c # cs) = None"
    by (cases "year_at (c # cs)") simp_all
  from Cons.prems(2) have "c \<noteq> CHR 0x0A" by auto
  with Cons.prems(1) y have l: "lazy_year cs = None" by simp
  from Cons.prems(3) consider "u = c # cs" | "suffix u cs" by (auto simp: suffix_Cons)
  then show ?case
  proof cases
    case 1
    with y show ?thesis by simp
  next
    case 2
    with l Cons.prems(2) show ?thesis by (intro Cons.IH) simp_all
  qed
qed

lemma no_match_after:
  assumes "lazy_year t = None" and "CHR 0x0A \<notin> set t" and "CHR ''2'' \<notin> set v"
  shows "copyright_search (v @ t) = None"
proof (rule copyright_search_none, intro allI impI)
  fix u assume "suffix u (v @ t)"
  then consider "suffix u t" | v' where "suffix v' v" "u = v' @ t" "v' \<noteq> []"
    by (auto simp: suffix_append) (metis append_Nil suffix_order.order_refl)
  then show "year_at u = None"
  proof cases
    case 1
    with assms(1,2) show ?thesis by (rule lazy_year_no_years)
  next
    case 2
    then obtain x xs where x: "v' = x # xs" by (cases v') auto
    with 2(1) have "x \<in> set v" by (auto dest: set_mono_suffix)
    with assms(3) have "x \<noteq> CHR ''2''" by auto
    then show ?thesis using 2(2) x by (simp add: year_at_first)
  qed
qed

lemma prefix_copyright_append:
  assumes "a \<noteq> []" and "c0 \<notin> set ''opyright''"
  shows "prefix ''copyright'' (a @ c0 # q) \<longleftrightarrow> prefix ''copyright'' a"
proof
  assume "prefix ''copyright'' a"
  then show "prefix ''copyright'' (a @ c0 # q)" by (rule prefix_prefix)
next
  assume "prefix ''copyright'' (a @ c0 # q)"
  then have "prefix ''copyright'' a \<or>
             (\<exists>us. ''copyright'' = a @ us \<and> prefix us (c0 # q))"
    by (simp only: prefix_append)
  then show "prefix ''copyright'' a"
  proof
    assume "prefix ''copyright'' a"
    then show ?thesis .
  next
    assume "\<exists>us. ''copyright'' = a @ us \<and> prefix us (c0 # q)"
    then obtain us where 1: "''copyright'' = a @ us" and 2: "prefix us (c0 # q)" by blast
    show ?thesis
    proof (cases us)
      case Nil
      have "prefix (a @ us) a" by (simp only: Nil append_Nil2 prefix_order.order_refl)
      then show ?thesis by (simp only: 1 [symmetric])
    next
      case (Cons x xs)
      with 2 have "x = c0" by simp
      obtain y ys where a: "a = y # ys" using assms(1) by (cases a) auto
      have m: "c0 \<in> set (tl (a @ us))" using a Cons \<open>x = c0\<close> by simp
      have "c0 \<in> set (tl ''copyright'')" by (simp only: 1 m)
      then have "c0 \<in> set ''opyright''" by simp
      with assms(2) show ?thesis by blast
    qed
  qed
qed

lemma copyright_at_append:
  assumes "a \<noteq> []" and "c0 \<notin> set ''opyright''"
  shows "copyright_at (a @ c0 # q) =
           (if prefix ''copyright'' a then lazy_year (drop 9 a @ c0 # q)
            else if prefix [CHR 0xA9] a then lazy_year (drop 1 a @ c0 # q)
            else None)"
proof -
  have g: "prefix [CHR 0xA9] (a @ c0 # q) \<longleftrightarrow> prefix [CHR 0xA9] a"
    using assms(1) by (cases a) auto
  have d9: "drop 9 (a @ c0 # q) = drop 9 a @ c0 # q" if "prefix ''copyright'' a"
  proof -
    from that have "length ''copyright'' \<le> length a" by (rule prefix_length_le)
    then show ?thesis by simp
  qed
  have d1: "drop 1 (a @ c0 # q) = drop 1 a @ c0 # q"
    using assms(1) by (cases a) auto
  show ?thesis
    unfolding copyright_at_def prefix_copyright_append [OF assms] g
    by (simp only: d9 d1 split: if_splits cong: if_cong) 
qed

lemma copyright_search_append:
  assumes nd: "\<not> digit c0" and nk: "c0 \<notin> set ''opyright''"
    and h: "\<And>y. lazy_year (c0 # q) = Some y \<Longrightarrow> copyright_search (c0 # q) = Some y"
  shows "copyright_search (p @ c0 # q) =
           (case copyright_search p of Some y \<Rightarrow> Some y | None \<Rightarrow> copyright_search (c0 # q))"
proof (induction p)
  case Nil
  then show ?case by simp
next
  case (Cons c p)
  have at: "copyright_at (c # p @ c0 # q) =
           (if prefix ''copyright'' (c # p) then lazy_year (drop 9 (c # p) @ c0 # q)
            else if prefix [CHR 0xA9] (c # p) then lazy_year (drop 1 (c # p) @ c0 # q)
            else None)"
    using copyright_at_append [OF _ nk, of "c # p" q] by simp
  have here: "copyright_search (c # p) =
           (case copyright_at (c # p) of Some y \<Rightarrow> Some y | None \<Rightarrow> copyright_search p)"
    by simp
  have step: "copyright_search (c # p @ c0 # q) =
           (case copyright_at (c # p @ c0 # q) of
              Some y \<Rightarrow> Some y
            | None \<Rightarrow> (case copyright_search p of
                         Some y \<Rightarrow> Some y
                       | None \<Rightarrow> copyright_search (c0 # q)))"
    by (simp add: Cons.IH split: option.split)
  have key: "copyright_search (c # p @ c0 # q) =
           (case copyright_search (c # p) of
              Some y \<Rightarrow> Some y
            | None \<Rightarrow> copyright_search (c0 # q))"
    if t: "copyright_at (c # p) = lazy_year t"
      and t': "copyright_at (c # p @ c0 # q) = lazy_year (t @ c0 # q)"
      and v: "p = v @ t" "CHR ''2'' \<notin> set v"
    for t v
  proof (cases "lazy_year t")
    case (Some y)
    then have "lazy_year (t @ c0 # q) = Some y" by (simp add: lazy_year_append [OF nd])
    then show ?thesis by (simp only: step here t t' Some option.case)
  next
    case None
    show ?thesis
    proof (cases "CHR 0x0A \<notin> set t \<and> lazy_year (c0 # q) \<noteq> None")
      case True
      then obtain y where y: "lazy_year (c0 # q) = Some y" by auto
      with None True have l: "lazy_year (t @ c0 # q) = Some y"
        by (simp add: lazy_year_append [OF nd] del: lazy_year.simps)
      have "copyright_search (v @ t) = None"
        using None True v(2) by (intro no_match_after) simp_all
      then have n: "copyright_search p = None" by (simp only: v(1))
      show ?thesis by (simp only: step here t t' l None n h [OF y] option.case)
    next
      case False
      with None have l: "lazy_year (t @ c0 # q) = None"
        by (cases "CHR 0x0A \<in> set t")
          (simp_all add: lazy_year_append [OF nd] del: lazy_year.simps)
      show ?thesis by (simp only: step here t t' l None option.case)
    qed
  qed
  have "copyright_search (c # p @ c0 # q) =
           (case copyright_search (c # p) of
              Some y \<Rightarrow> Some y
            | None \<Rightarrow> copyright_search (c0 # q))"
  proof (cases "prefix ''copyright'' (c # p)")
    case True
    then obtain t where e: "c # p = ''copyright'' @ t" by (auto simp: prefix_def)
    then have d: "drop 9 (c # p) = t" by simp
    from e have pv: "p = ''opyright'' @ t" by simp
    show ?thesis
    proof (rule key [of t "''opyright''"])
      show "copyright_at (c # p) = lazy_year t"
        using True by (simp only: copyright_at_def if_True d)
      show "copyright_at (c # p @ c0 # q) = lazy_year (t @ c0 # q)"
        using True by (simp only: at if_True d)
      show "p = ''opyright'' @ t" by (rule pv)
      show "CHR ''2'' \<notin> set ''opyright''" by simp
    qed
  next
    case nc: False
    show ?thesis
    proof (cases "prefix [CHR 0xA9] (c # p)")
      case True
      have d: "drop 1 (c # p) = p" by simp
      show ?thesis
      proof (rule key [of p "[]"])
        show "copyright_at (c # p) = lazy_year p"
          using nc True by (simp only: copyright_at_def if_True if_False d)
        show "copyright_at (c # p @ c0 # q) = lazy_year (p @ c0 # q)"
          using nc True by (simp only: at if_True if_False d)
        show "p = [] @ p" by simp
        show "CHR ''2'' \<notin> set []" by simp
      qed
    next
      case False
      with nc have 1: "copyright_at (c # p) = None" by (simp only: copyright_at_def if_False)
      from nc False have 2: "copyright_at (c # p @ c0 # q) = None"
        by (simp only: at if_False)
      show ?thesis by (simp only: step here 1 2 option.case)
    qed
  qed
  then show ?case by (simp only: append_Cons)
qed

lemma lazy_year_skip:
  "c \<noteq> CHR ''2'' \<Longrightarrow> c \<noteq> CHR 0x0A \<Longrightarrow> lazy_year (c # t) = lazy_year t"
  by (simp add: year_at_first)

lemma copyright_search_skip:
  "c \<noteq> CHR ''c'' \<Longrightarrow> c \<noteq> CHR 0xA9 \<Longrightarrow> copyright_search (c # t) = copyright_search t"
  by (simp add: copyright_at_def)

lemma lazy_year_glyph_2021:
  "lazy_year (CHR 0xA9 # '' 2021 example corp'' @ q) = Some ''2021''"
  by (simp add: digit_def)

lemma search_glyph_2021:
  "copyright_search (CHR 0xA9 # '' 2021 example corp'' @ q) = Some ''2021''"
  by (simp add: copyright_at_def digit_def)

lemma lazy_year_1999:
  "lazy_year (CHR ''c'' # ''opyright 1999 example'' @ q) = lazy_year q"
  by (simp add: lazy_year_skip del: lazy_year.simps)

lemma search_1999:
  "copyright_search (CHR ''c'' # ''opyright 1999 example'' @ q) =
     (case lazy_year q of Some y \<Rightarrow> Some y | None \<Rightarrow> copyright_search q)"
proof -
  have a: "copyright_at (CHR ''c'' # ''opyright 1999 example'' @ q) = lazy_year q"
    by (simp add: copyright_at_def lazy_year_skip del: lazy_year.simps)
  have b: "copyright_search (''opyright 1999 example'' @ q) = copyright_search q"
    by (simp add: copyright_search_skip del: copyright_search.simps)
  show ?thesis
    by (simp only: copyright_search.simps a b)
qed

lemma search_before_2021:
  "copyright_search (p @ CHR 0xA9 # '' 2021 example corp'' @ q) =
     (case copyright_search p of Some y \<Rightarrow> Some y | None \<Rightarrow> Some ''2021'')"
proof -
  have "copyright_search (p @ CHR 0xA9 # '' 2021 example corp'' @ q) =
     (case copyright_search p of
        Some y \<Rightarrow> Some y
      | None \<Rightarrow> copyright_search (CHR 0xA9 # '' 2021 example corp'' @ q))"
  proof (rule copyright_search_append)
    show "\<not> digit (CHR 0xA9)" by (simp add: digit_def)
    show "CHR 0xA9 \<notin> set ''opyright''" by simp
    fix y assume "lazy_year (CHR 0xA9 # '' 2021 example corp'' @ q) = Some y"
    then show "copyright_search (CHR 0xA9 # '' 2021 example corp'' @ q) = Some y"
      by (simp only: lazy_year_glyph_2021 search_glyph_2021)
  qed
  then show ?thesis by (simp only: search_glyph_2021)
qed

lemma search_before_1999:
  "copyright_search (p @ CHR ''c'' # ''opyright 1999 example'' @ q) =
     (case copyright_search p of
        Some y \<Rightarrow> Some y
      | None \<Rightarrow> (case lazy_year q of Some y \<Rightarrow> Some y | None \<Rightarrow> copyright_search q))"
proof -
  have "copyright_search (p @ CHR ''c'' # ''opyright 1999 example'' @ q) =
     (case copyright_search p of
        Some y \<Rightarrow> Some y
      | None \<Rightarrow> copyright_search (CHR ''c'' # ''opyright 1999 example'' @ q))"
  proof (rule copyright_search_append)
    show "\<not> digit (CHR ''c'')" by (simp add: digit_def)
    show "CHR ''c'' \<notin> set ''opyright''" by simp
    fix y assume "lazy_year (CHR ''c'' # ''opyright 1999 example'' @ q) = Some y"
    then have "lazy_year q = Some y" by (simp only: lazy_year_1999)
    then show "copyright_search (CHR ''c'' # ''opyright 1999 example'' @ q) = Some y"
      by (simp only: search_1999 option.case)
  qed
  then show ?thesis by (simp only: search_1999)
qed

lemma year_before_2021:
  "first_copyright_year (p @ CHR 0xA9 # '' 2021 example corp'' @ q) =
     (if first_copyright_year p = [] then ''2021'' else first_copyright_year p)"
proof (cases "copyright_search p")
  case None
  then have e: "first_copyright_year p = []" by (simp only: copyright_search_None_iff)
  have "first_copyright_year (p @ CHR 0xA9 # '' 2021 example corp'' @ q) = ''2021''"
    by (simp only: copyright_search_spec [of "p @ _"] search_before_2021 None option.case)
  with e show ?thesis by simp
next
  case (Some y)
  then have y: "first_copyright_year p = y" by (simp only: copyright_search_spec option.case)
  from Some have n: "y \<noteq> []" by (rule first_copyright_year_nonempty)
  have "first_copyright_year (p @ CHR 0xA9 # '' 2021 example corp'' @ q) = y"
    by (simp only: copyright_search_spec [of "p @ _"] search_before_2021 Some option.case)
  with y n show ?thesis by simp
qed

lemma year_before_1999:
  "first_copyright_year (p @ CHR ''c'' # ''opyright 1999 example'' @ q) =
     (if first_copyright_year p \<noteq> [] then first_copyright_year p
      else case years_in (line_of q) of [] \<Rightarrow> first_copyright_year q | y # _ \<Rightarrow> y)"
proof (cases "copyright_search p")
  case None
  then have e: "first_copyright_year p = []" by (simp only: copyright_search_None_iff)
  have "first_copyright_year (p @ CHR ''c'' # ''opyright 1999 example'' @ q) =
          (case (case lazy_year q of Some y \<Rightarrow> Some y | None \<Rightarrow> copyright_search q) of
             None \<Rightarrow> [] | Some y \<Rightarrow> y)"
    by (simp only: copyright_search_spec [of "p @ _"] search_before_1999 None option.case)
  also have "\<dots> = (case years_in (line_of q) of [] \<Rightarrow> first_copyright_year q | y # _ \<Rightarrow> y)"
    by (cases "years_in (line_of q)")
      (simp_all only: lazy_year_spec list.case option.case copyright_search_spec [of q])
  finally show ?thesis using e by simp
next
  case (Some y)
  then have y: "first_copyright_year p = y" by (simp only: copyright_search_spec option.case)
  from Some have n: "y \<noteq> []" by (rule first_copyright_year_nonempty)
  have "first_copyright_year (p @ CHR ''c'' # ''opyright 1999 example'' @ q) = y"
    by (simp only: copyright_search_spec [of "p @ _"] search_before_1999 Some option.case)
  with y n show ?thesis by simp
qed

lemma lower_glyph_2021:
  "lower (p @ [CHR 0xA9] @ '' 2021 Example Corp'' @ q) =
     lower p @ CHR 0xA9 # '' 2021 example corp'' @ lower q"
  by (simp add: lower_def lower_char_def uppercase_def lowercase_def)

lemma lower_1999:
  "lower (p @ ''Copyright 1999 Example'' @ q) =
     lower p @ CHR ''c'' # ''opyright 1999 example'' @ lower q"
  by (simp add: lower_def lower_char_def uppercase_def lowercase_def)

lemmas year_defs =
  first_copyright_year_def after_keywords_def after_keyword_def copyright_keywords_def
  years_in_def line_of_def is_year_def digit_def

text \<open>
  Claim C7 as stated fails. The body \<open>Copyright 1999 Example, updated 2024\<close> contains
  \<open>Copyright 1999 Example\<close> and gives the year \<open>2024\<close>, which follows on the same line.
  A body that contains the glyph with 2021 after an earlier glyph with 2019 gives
  \<open>2019\<close>. And a body with the year 2021 on the line after the word gives no year:
  the dot of the pattern does not match the end of a line.
\<close>

theorem copyright_counterexample:
  "contains ''Copyright 1999 Example, updated 2024'' ''Copyright 1999 Example'' \<and>
   copyright_year (check_website
      (page_world 200 ''Copyright 1999 Example, updated 2024'' (Inr empty_soup)) ''example.com'')
     = ''2024'' \<and>
   contains ([CHR 0xA9] @ '' 2019 Old Corp '' @ [CHR 0xA9] @ '' 2021 Example Corp'')
            ([CHR 0xA9] @ '' 2021 Example Corp'') \<and>
   copyright_year (check_website
      (page_world 200 ([CHR 0xA9] @ '' 2019 Old Corp '' @ [CHR 0xA9] @ '' 2021 Example Corp'')
         (Inr empty_soup)) ''example.com'')
     = ''2019'' \<and>
   copyright_year (check_website
      (page_world 200 (''Copyright'' @ [CHR 0x0A] @ ''2021'') (Inr empty_soup)) ''example.com'')
     = []"
proof -
  let ?b1 = "''Copyright 1999 Example, updated 2024''"
  let ?b2 = "[CHR 0xA9] @ '' 2019 Old Corp '' @ [CHR 0xA9] @ '' 2021 Example Corp''"
  let ?b3 = "''Copyright'' @ [CHR 0x0A] @ ''2021''"
  have c1: "contains ?b1 ''Copyright 1999 Example''"
    by (simp add: contains_def sublist_Cons_right)
  have c2: "contains ?b2 ([CHR 0xA9] @ '' 2021 Example Corp'')"
    by (simp add: contains_def sublist_Cons_right)
  have s1: "copyright_search (lower ?b1) = Some ''2024''"
    by (simp add: lower_def lower_char_def uppercase_def lowercase_def copyright_at_def digit_def)
  have s2: "copyright_search (lower ?b2) = Some ''2019''"
    by (simp add: lower_def lower_char_def uppercase_def lowercase_def copyright_at_def digit_def)
  have s3: "copyright_search (lower ?b3) = None"
    by (simp add: lower_def lower_char_def uppercase_def lowercase_def copyright_at_def digit_def)
  have y: "copyright_year (check_website (page_world 200 b (Inr empty_soup)) ''example.com'')
        = (case copyright_search (lower b) of None \<Rightarrow> [] | Some y \<Rightarrow> y)" for b
    by (simp add: check_website_200 [where r = "\<lparr> status_code = 200, text_of = b \<rparr>" and sp = empty_soup]
        page_world_def inspect_body_copyright_year initial_results_def split: option.splits)
  show ?thesis
    by (simp only: y c1 c2 s1 s2 s3 option.case simp_thms)
qed

text \<open>
  Claim C7, amended: for a response with status 200 whose body is parsed without an
  exception, \<open>copyright_year\<close> is, in the lower-cased body, the first 4-digit year 2000
  to 2099 that follows on the same line the first word \<open>copyright\<close> or copyright glyph
  that has such a year after it on its line, and the empty string if there is none.
  So a body that contains the glyph followed by \<open> 2021 Example Corp\<close> gives \<open>2021\<close>,
  unless the text before it gives a year by itself, which is then the result. And a body
  that contains \<open>Copyright 1999 Example\<close> gives the empty string, unless the text
  before it gives a year by itself, or a year follows the quoted text on its line, or
  the text after it gives a year by itself; the first of these is then the result.
\<close>

theorem copyright_extraction:
  assumes "requests_get w (normalize u) = Inr r"
    and "status_code r = 200"
    and "BeautifulSoup w (text_of r) = Inr sp"
  shows "copyright_year (check_website w u) = first_copyright_year (lower (text_of r)) \<and>
         (text_of r = p @ [CHR 0xA9] @ '' 2021 Example Corp'' @ q \<longrightarrow>
            copyright_year (check_website w u) =
              (if first_copyright_year (lower p) = [] then ''2021''
               else first_copyright_year (lower p))) \<and>
         (text_of r = p @ ''Copyright 1999 Example'' @ q \<longrightarrow>
            copyright_year (check_website w u) =
              (if first_copyright_year (lower p) \<noteq> [] then first_copyright_year (lower p)
               else case years_in (line_of (lower q)) of
                      [] \<Rightarrow> first_copyright_year (lower q)
                    | y # _ \<Rightarrow> y))"
proof -
  have g: "copyright_year (check_website w u) = first_copyright_year (lower (text_of r))"
    by (simp add: check_website_200 [OF assms] inspect_body_copyright_year
        copyright_search_spec initial_results_def split: option.split)
  show ?thesis
  proof (intro conjI impI)
    show "copyright_year (check_website w u) = first_copyright_year (lower (text_of r))"
      by (rule g)
  next
    assume "text_of r = p @ [CHR 0xA9] @ '' 2021 Example Corp'' @ q"
    then show "copyright_year (check_website w u) =
              (if first_copyright_year (lower p) = [] then ''2021''
               else first_copyright_year (lower p))"
      by (simp only: g lower_glyph_2021 year_before_2021)
  next
    assume "text_of r = p @ ''Copyright 1999 Example'' @ q"
    then show "copyright_year (check_website w u) =
              (if first_copyright_year (lower p) \<noteq> [] then first_copyright_year (lower p)
               else case years_in (line_of (lower q)) of
                      [] \<Rightarrow> first_copyright_year (lower q)
                    | y # _ \<Rightarrow> y)"
      by (simp only: g lower_1999 year_before_1999)
  qed
qed

text \<open>
  C7 at concrete inputs: the glyph and 2021 inside a paragraph, after the word
  \<open>Copyright\<close>; the text \<open>Copyright 1999 Example\<close> after a year that follows no
  keyword; and the word followed by 2021, without the glyph.
\<close>

theorem copyright_extraction_witness:
  "copyright_year (check_website
      (page_world 200 (''<p>Copyright '' @ [CHR 0xA9] @ '' 2021 Example Corp'' @ ''</p>'')
         (Inr empty_soup)) ''example.com'') = ''2021'' \<and>
   copyright_year (check_website
      (page_world 200 (''Est. 2024. '' @ ''Copyright 1999 Example'' @ []) (Inr empty_soup))
      ''example.com'') = [] \<and>
   copyright_year (check_website
      (page_world 200 ''Copyright 2021 Example Corp'' (Inr empty_soup)) ''example.com'') = ''2021''"
proof -
  let ?b1 = "''<p>Copyright '' @ [CHR 0xA9] @ '' 2021 Example Corp'' @ ''</p>''"
  let ?b2 = "''Est. 2024. '' @ ''Copyright 1999 Example'' @ []"
  let ?b3 = "''Copyright 2021 Example Corp''"
  have g: "requests_get (page_world 200 b (Inr empty_soup)) (normalize ''example.com'')
             = Inr \<lparr> status_code = 200, text_of = b \<rparr>" for b
    by (simp add: page_world_def)
  have s: "status_code \<lparr> status_code = 200, text_of = b \<rparr> = 200" for b :: string by simp
  have p: "BeautifulSoup (page_world 200 b (Inr empty_soup)) (text_of \<lparr> status_code = 200, text_of = b \<rparr>)
             = Inr empty_soup" for b
    by (simp add: page_world_def)
  have t: "text_of \<lparr> status_code = 200, text_of = b \<rparr> = b" for b :: string by simp
  have l1: "first_copyright_year (lower ''<p>Copyright '') = []"
    by (simp add: lower_def lower_char_def uppercase_def lowercase_def year_defs)
  have l2: "first_copyright_year (lower ''Est. 2024. '') = []"
    by (simp add: lower_def lower_char_def uppercase_def lowercase_def year_defs)
  have l2': "years_in (line_of (lower [])) = [] \<and> first_copyright_year (lower []) = []"
    by (simp add: lower_def year_defs)
  have l3: "first_copyright_year (lower ?b3) = ''2021''"
    by (simp add: lower_def lower_char_def uppercase_def lowercase_def year_defs)
  have 1: "copyright_year (check_website (page_world 200 ?b1 (Inr empty_soup)) ''example.com'') = ''2021''"
    using copyright_extraction [where p = "''<p>Copyright ''" and q = "''</p>''",
        OF g [of ?b1] s p, THEN conjunct2, THEN conjunct1, THEN mp, OF t]
    by (simp only: l1 simp_thms if_True)
  have 2: "copyright_year (check_website (page_world 200 ?b2 (Inr empty_soup)) ''example.com'') = []"
    using copyright_extraction [where p = "''Est. 2024. ''" and q = "[]",
        OF g [of ?b2] s p, THEN conjunct2, THEN conjunct2, THEN mp, OF t]
    by (simp only: l2 l2' simp_thms if_False list.case)
  have 3: "copyright_year (check_website (page_world 200 ?b3 (Inr empty_soup)) ''example.com'') = ''2021''"
    using copyright_extraction [OF g [of ?b3] s p, THEN conjunct1]
    by (simp only: t l3)
  from 1 2 3 show ?thesis by (intro conjI)
qed


section \<open>The Batch Runner: what a run writes\<close>

lemma length_inspections: "length (inspections ws index us) = length us"
  by (induction us arbitrary: index) simp_all

lemma print_files:
  "output_file (print ls sys) = output_file sys"
  "file_ops (print ls sys) = file_ops sys"
  "input_file (print ls sys) = input_file sys"
  by (simp_all add: print_def)

lemma run_loop_file_ops:
  "file_ops (run_loop ws total_websites index us batch sys) =
     file_ops sys @
       map (\<lambda>b. Append (map Data b))
         (flushes total_websites index (inspections ws index us) batch)"
proof (induction us arbitrary: index batch sys)
  case Nil
  then show ?case by simp
next
  case (Cons u us)
  show ?case
    by (simp add: Let_def Cons.IH print_files open_a_def)
qed

lemma run_loop_output_file:
  "output_file (run_loop ws total_websites index us batch sys) =
     (if flushes total_websites index (inspections ws index us) batch = [] then output_file sys
      else Some ((case output_file sys of None \<Rightarrow> [] | Some old \<Rightarrow> old) @
                 map Data (concat (flushes total_websites index (inspections ws index us) batch))))"
proof (induction us arbitrary: index batch sys)
  case Nil
  then show ?case by simp
next
  case (Cons u us)
  show ?case
    by (simp add: Let_def Cons.IH print_files open_a_def split: option.splits)
qed

lemma concat_flushes:
  "index + length rs = total_websites + 1 \<Longrightarrow> rs \<noteq> [] \<or> batch = [] \<Longrightarrow>
   concat (flushes total_websites index rs batch) = batch @ rs"
proof (induction rs arbitrary: index batch)
  case Nil
  then show ?case by simp
next
  case (Cons r rs)
  show ?case
  proof (cases "length (batch @ [r]) \<ge> BATCH_SIZE \<or> index = total_websites")
    case True
    have "concat (flushes total_websites (index + 1) rs []) = [] @ rs"
      using Cons.prems by (intro Cons.IH) simp_all
    with True show ?thesis by simp
  next
    case False
    with Cons.prems have "rs \<noteq> []" by auto
    then have "concat (flushes total_websites (index + 1) rs (batch @ [r])) = (batch @ [r]) @ rs"
      using Cons.prems by (intro Cons.IH) simp_all
    with False show ?thesis by simp
  qed
qed

lemma flushes_step:
  "length batch < BATCH_SIZE \<Longrightarrow> index + length rs = total_websites + 1 \<Longrightarrow> rs \<noteq> [] \<Longrightarrow>
   flushes total_websites index rs batch =
     (if length batch + length rs \<le> BATCH_SIZE then [batch @ rs]
      else (batch @ take (BATCH_SIZE - length batch) rs) #
           flushes total_websites (index + (BATCH_SIZE - length batch))
             (drop (BATCH_SIZE - length batch) rs) [])"
proof (induction rs arbitrary: index batch)
  case Nil
  then show ?case by simp
next
  case (Cons r rs)
  show ?case
  proof (cases "length (batch @ [r]) \<ge> BATCH_SIZE")
    case True
    with Cons.prems(1) have l: "BATCH_SIZE - length batch = 1" by simp
    show ?thesis
    proof (cases "rs = []")
      case True
      then show ?thesis using Cons.prems by simp
    next
      case False
      then have "\<not> length batch + length (r # rs) \<le> BATCH_SIZE"
        using l by (cases rs) auto
      then show ?thesis using True l by simp
    qed
  next
    case full: False
    show ?thesis
    proof (cases "index = total_websites")
      case True
      with Cons.prems have "rs = []" by simp
      with True full show ?thesis by simp
    next
      case False
      with Cons.prems have ne: "rs \<noteq> []" by auto
      from full have lt: "length (batch @ [r]) < BATCH_SIZE" by simp
      have ih: "flushes total_websites (index + 1) rs (batch @ [r]) =
         (if length (batch @ [r]) + length rs \<le> BATCH_SIZE then [(batch @ [r]) @ rs]
          else ((batch @ [r]) @ take (BATCH_SIZE - length (batch @ [r])) rs) #
               flushes total_websites (index + 1 + (BATCH_SIZE - length (batch @ [r])))
                 (drop (BATCH_SIZE - length (batch @ [r])) rs) [])"
        using lt Cons.prems ne by (intro Cons.IH) simp_all
      from lt obtain k where k: "BATCH_SIZE - length batch = Suc k"
        by (cases "BATCH_SIZE - length batch") auto
      then have k': "BATCH_SIZE - Suc (length batch) = k" by simp
      have step: "flushes total_websites index (r # rs) batch =
                    flushes total_websites (index + 1) rs (batch @ [r])"
        using full False by simp
      show ?thesis unfolding step ih by (simp add: k k')
    qed
  qed
qed

lemma main_missing:
  "input_file sys = None \<Longrightarrow>
   main ws sys = print [Not_found input_name] (print [Reading_from input_name] sys)"
  by (simp add: main_def Let_def print_files)

lemma main_file_ops:
  "input_file sys = Some rows \<Longrightarrow>
   file_ops (main ws sys) =
     file_ops sys @ Write [Header fieldnames] #
       map (\<lambda>b. Append (map Data b))
         (flushes (length (read_websites rows)) 1 (inspections ws 1 (read_websites rows)) [])"
  by (simp add: main_def Let_def print_files run_loop_file_ops open_w_def)

lemma main_output_file:
  "input_file sys = Some rows \<Longrightarrow>
   output_file (main ws sys) =
     Some (Header fieldnames # map Data (inspections ws 1 (read_websites rows)))"
proof -
  assume a: "input_file sys = Some rows"
  let ?us = "read_websites rows"
  let ?fl = "flushes (length ?us) 1 (inspections ws 1 ?us) []"
  have c: "concat ?fl = [] @ inspections ws 1 ?us"
    by (rule concat_flushes) (simp_all add: length_inspections)
  have e: "?fl = [] \<Longrightarrow> inspections ws 1 ?us = []"
    using c by simp
  show ?thesis
    using a c e
    by (simp add: main_def Let_def print_files run_loop_output_file open_w_def)
qed

text \<open>
  Claim C9: when the input file does not exist, the run prints that it is reading the
  file and that the file was not found, and returns; the output file is as it was
  before the run (not created if it did not exist) and is never opened.
\<close>

theorem missing_input:
  "input_file sys = None \<Longrightarrow>
   output_file (main ws sys) = output_file sys \<and>
   file_ops (main ws sys) = file_ops sys \<and>
   stdout (main ws sys) = stdout sys @ [Reading_from input_name, Not_found input_name]"
  by (simp add: main_missing print_def)

text \<open>C9 at a concrete state: no input file, no output file, nothing printed yet.\<close>

theorem missing_input_witness:
  "output_file (main (\<lambda>i. timeout_world) (fresh None)) = None \<and>
   file_ops (main (\<lambda>i. timeout_world) (fresh None)) = [] \<and>
   stdout (main (\<lambda>i. timeout_world) (fresh None)) =
     [Reading_from ''websites.csv'', Not_found ''websites.csv'']"
proof -
  have h: "input_file (fresh None) = None" by (simp add: fresh_def)
  from missing_input [OF h, of "\<lambda>i. timeout_world"] show ?thesis
    by (simp add: fresh_def input_name_def)
qed

text \<open>
  Claim C10: after a run over an input file that exists, the output file holds the
  header and then, in input order, exactly the records that the Inspector returned for
  the URLs, every field as returned. The lines shown to the operator are built from the
  record by \<open>show_title\<close> and \<open>show_plugins\<close> and printed; what they cut off is cut off
  there only.
\<close>

theorem records_persisted:
  "input_file sys = Some rows \<Longrightarrow>
   output_file (main ws sys) =
     Some (Header fieldnames # map Data (inspections ws 1 (read_websites rows)))"
  by (rule main_output_file)

text \<open>
  C10 at a concrete input: one site whose title has 60 characters. The row in the
  output file is the Inspector's record with the whole title; the title shown to the
  operator is a different string.
\<close>

theorem records_persisted_witness:
  "output_file (main (\<lambda>i. titled_world) (fresh (Some [[''example.com'']]))) =
     Some [Header fieldnames, Data (check_website titled_world ''example.com'')] \<and>
   site_title (check_website titled_world ''example.com'') = long_title \<and>
   show_title long_title \<noteq> long_title"
proof -
  have h: "input_file (fresh (Some [[''example.com'']])) = Some [[''example.com'']]"
    by (simp add: fresh_def)
  have r: "read_websites [[''example.com'']] = [''example.com'']"
    by (simp add: read_websites_def strip_def isspace_def)
  have 1: "output_file (main (\<lambda>i. titled_world) (fresh (Some [[''example.com'']]))) =
     Some [Header fieldnames, Data (check_website titled_world ''example.com'')]"
    using records_persisted [OF h, of "\<lambda>i. titled_world"] by (simp add: r)
  have g: "requests_get titled_world (normalize ''example.com'') =
             Inr \<lparr> status_code = 200, text_of = ''<title>t</title>'' \<rparr>"
    by (simp add: titled_world_def page_world_def)
  have p: "BeautifulSoup titled_world (text_of \<lparr> status_code = 200, text_of = ''<title>t</title>'' \<rparr>) =
             Inr \<lparr> title = Some (Some long_title), metas = [] \<rparr>"
    by (simp add: titled_world_def page_world_def)
  have s: "strip long_title = long_title"
    by (simp add: strip_def isspace_def long_title_def)
  have n: "long_title \<noteq> []" by (simp add: long_title_def)
  have 2: "site_title (check_website titled_world ''example.com'') = long_title"
    by (simp add: check_website_200 [OF g _ p] inspect_defs Let_def find_meta_def s n
        split: option.splits)
  have 3: "show_title long_title \<noteq> long_title"
    by (simp add: show_title_def long_title_def)
  from 1 2 3 show ?thesis by simp
qed

text \<open>
  Claim C5: for an input of 250 URLs, with the batch size of 100, the run opens the
  output file four times: once to write the header, then three times to append, 100
  records, 100 records and 50 records; afterwards the file holds the header and 250
  data rows.
\<close>

theorem batches_of_250:
  assumes "input_file sys = Some rows" and "length (read_websites rows) = 250"
  shows "file_ops (main ws sys) =
           file_ops sys @
             [Write [Header fieldnames],
              Append (map Data (take 100 (inspections ws 1 (read_websites rows)))),
              Append (map Data (take 100 (drop 100 (inspections ws 1 (read_websites rows))))),
              Append (map Data (drop 200 (inspections ws 1 (read_websites rows))))] \<and>
         length (take 100 (inspections ws 1 (read_websites rows))) = 100 \<and>
         length (take 100 (drop 100 (inspections ws 1 (read_websites rows)))) = 100 \<and>
         length (drop 200 (inspections ws 1 (read_websites rows))) = 50 \<and>
         output_file (main ws sys) =
           Some (Header fieldnames # map Data (inspections ws 1 (read_websites rows))) \<and>
         length (inspections ws 1 (read_websites rows)) = 250"
proof -
  let ?rs = "inspections ws 1 (read_websites rows)"
  have l: "length ?rs = 250" by (simp add: length_inspections assms(2))
  have f1: "flushes 250 1 ?rs [] = take 100 ?rs # flushes 250 101 (drop 100 ?rs) []"
    using l by (subst flushes_step) (auto simp: BATCH_SIZE_def)
  have f2: "flushes 250 101 (drop 100 ?rs) [] =
              take 100 (drop 100 ?rs) # flushes 250 201 (drop 200 ?rs) []"
    using l by (subst flushes_step) (auto simp: BATCH_SIZE_def)
  have f3: "flushes 250 201 (drop 200 ?rs) [] = [drop 200 ?rs]"
    using l by (subst flushes_step) (auto simp: BATCH_SIZE_def)
  have f: "flushes (length (read_websites rows)) 1 ?rs [] =
             [take 100 ?rs, take 100 (drop 100 ?rs), drop 200 ?rs]"
    by (simp only: assms(2) f1 f2 f3)
  have ops: "file_ops (main ws sys) =
           file_ops sys @
             [Write [Header fieldnames], Append (map Data (take 100 ?rs)),
              Append (map Data (take 100 (drop 100 ?rs))), Append (map Data (drop 200 ?rs))]"
    by (simp only: main_file_ops [OF assms(1)] f list.map)
  have lens: "length (take 100 ?rs) = 100 \<and> length (take 100 (drop 100 ?rs)) = 100 \<and>
              length (drop 200 ?rs) = 50"
    using l by simp
  from ops lens main_output_file [OF assms(1), of ws] l show ?thesis by blast
qed

text \<open>C5 at a concrete input: 250 rows with the same host, every request timing out.\<close>

theorem batches_of_250_witness:
  "map (case_file_op (\<lambda>rs. (''w'', length rs)) (\<lambda>rs. (''a'', length rs)))
     (file_ops (main (\<lambda>i. timeout_world) (fresh (Some (replicate 250 [''example.com''])))))
     = [(''w'', 1), (''a'', 100), (''a'', 100), (''a'', 50)] \<and>
   map_option length
     (output_file (main (\<lambda>i. timeout_world) (fresh (Some (replicate 250 [''example.com''])))))
     = Some 251"
proof -
  let ?sys = "fresh (Some (replicate 250 [''example.com'']))"
  have h1: "input_file ?sys = Some (replicate 250 [''example.com''])" by (simp add: fresh_def)
  have h2: "length (read_websites (replicate 250 [''example.com''])) = 250"
    by (simp add: read_websites_def)
  have e: "file_ops ?sys = []" by (simp add: fresh_def)
  from batches_of_250 [OF h1 h2, of "\<lambda>i. timeout_world"] show ?thesis
    by (simp add: e)
qed

end
